theory Spec2Isabelle
  imports Complex_Main
begin

section \<open>Data model (types.ts)\<close>

text \<open>
  JavaScript numbers are modelled as reals (timestamps, coordinates, deltas) or as integers
  (list indices). Where a discrete value or an exact equality is taken from the result of
  an arithmetic operation (the active counts, the spiral construction), the rounding of
  the operation to the nearest double is written out with \<open>fl64\<close>; elsewhere the
  operations are exact.
\<close>

datatype AppMode = TREE | SCATTER | PHOTO_ZOOM

record HandGesture =
  isFist :: bool
  isOpen :: bool
  isPinching :: bool
  position :: "real \<times> real"

record PhotoData =
  id_photo :: string
  url :: string

section \<open>Gesture classifier (HandController.tsx, renderLoop, lines 111--134)\<close>

text \<open>One tracked key point of the hand, in normalised camera space.\<close>

record Landmark =
  lm_x :: real
  lm_y :: real
  lm_z :: real

definition tips :: "nat list" where
  "tips = [8, 12, 16, 20]"

definition pips :: "nat list" where
  "pips = [6, 10, 14, 18]"

text \<open>The squared distance of the source: only the x and y coordinates enter.\<close>

definition sqDistXY :: "Landmark \<Rightarrow> Landmark \<Rightarrow> real" where
  "sqDistXY a b = (lm_x a - lm_x b)\<^sup>2 + (lm_y a - lm_y b)\<^sup>2"

text \<open>The test in the body of \<^verbatim>\<open>tips.forEach\<close>, for the finger at position \<open>i\<close>.\<close>

definition fingerCurled :: "Landmark list \<Rightarrow> nat \<Rightarrow> bool" where
  "fingerCurled landmarks i =
     (let wrist = landmarks ! 0;
          tip = landmarks ! (tips ! i);
          pip = landmarks ! (pips ! i);
          distTip = sqDistXY tip wrist;
          distPip = sqDistXY pip wrist
      in distTip < distPip * 1.2)"

text \<open>The \<^verbatim>\<open>forEach\<close> loop with its counter \<^verbatim>\<open>curledFingers\<close>.\<close>

definition curledFingers :: "Landmark list \<Rightarrow> nat" where
  "curledFingers landmarks =
     fold (\<lambda>i n. if fingerCurled landmarks i then n + 1 else n) [0..<length tips] 0"

text \<open>
  The classification of one detected hand. The source reads the landmarks 0, 4, 6, 8, 9,
  10, 12, 14, 16, 18 and 20; a list with fewer than 21 entries makes one of these reads
  \<^verbatim>\<open>undefined\<close> and the property access on it throws, which is the value \<open>None\<close>.
\<close>

definition classifyGesture :: "Landmark list \<Rightarrow> HandGesture option" where
  "classifyGesture landmarks =
     (if length landmarks < 21 then None
      else
        let n = curledFingers landmarks;
            fist = (n \<ge> 4);
            thumbTip = landmarks ! 4;
            indexTip = landmarks ! 8;
            pinchDist = sqrt ((lm_x thumbTip - lm_x indexTip)\<^sup>2 + (lm_y thumbTip - lm_y indexTip)\<^sup>2);
            pinching = (pinchDist < 0.05 \<and> \<not> fist);
            opened = (n \<le> 1)
        in Some \<lparr> isFist = fist, isOpen = opened, isPinching = pinching,
                  position = ((lm_x (landmarks ! 9) - 0.5) * (- 2), (lm_y (landmarks ! 9) - 0.5) * 2) \<rparr>)"

section \<open>Mode transition policy (HandController.tsx, renderLoop, lines 137--160)\<close>

text \<open>The mutable variables of the effect closure, and the shared hand position cell.\<close>

record ControllerState =
  lastDetectionTime :: real
  lastGestureChangeTime :: real
  handPosition :: "real \<times> real"

definition DETECTION_INTERVAL :: real where
  "DETECTION_INTERVAL = 50"

text \<open>The if / else-if chain that computes \<^verbatim>\<open>nextMode\<close> from \<^verbatim>\<open>current\<close>.\<close>

definition nextModeOf :: "HandGesture \<Rightarrow> AppMode \<Rightarrow> AppMode" where
  "nextModeOf g current =
     (if isFist g \<and> current \<noteq> TREE then TREE
      else if isPinching g \<and> current = SCATTER then PHOTO_ZOOM
      else if isOpen g \<and> \<not> isPinching g \<and> (current = PHOTO_ZOOM \<or> current = TREE) then SCATTER
      else current)"

text \<open>
  The debounced switch. The first component of the result is the call of
  \<^verbatim>\<open>onModeChangeRef.current(nextMode)\<close>, when there is one.
\<close>

definition debouncedModeSwitch ::
  "real \<Rightarrow> HandGesture \<Rightarrow> AppMode \<Rightarrow> ControllerState \<Rightarrow> AppMode option \<times> ControllerState" where
  "debouncedModeSwitch ts g current c =
     (if ts - lastGestureChangeTime c > 800 then
        (let nextMode = nextModeOf g current
         in if nextMode \<noteq> current then (Some nextMode, c\<lparr>lastGestureChangeTime := ts\<rparr>)
            else (None, c))
      else (None, c))"

text \<open>What the tracker hands back for one video frame.\<close>

datatype Detection = DetectThrows | NoHand | Hand "Landmark list"

record Frame =
  timestamp :: real
  videoPlaying :: bool
  detection :: Detection

text \<open>
  One call of \<^verbatim>\<open>renderLoop\<close>, with \<open>current\<close> the value of \<^verbatim>\<open>modeRef.current\<close>.
  An exception inside the callback ends this call only: the next animation frame was
  requested on entry, so the state reached so far is the state of the next call.
\<close>

definition renderLoop :: "Frame \<Rightarrow> AppMode \<Rightarrow> ControllerState \<Rightarrow> AppMode option \<times> ControllerState" where
  "renderLoop f current c =
     (if timestamp f - lastDetectionTime c < DETECTION_INTERVAL then (None, c)
      else if \<not> videoPlaying f then (None, c)
      else
        let c1 = c\<lparr>lastDetectionTime := timestamp f\<rparr>
        in case detection f of
             DetectThrows \<Rightarrow> (None, c1)
           | NoHand \<Rightarrow> (None, c1)
           | Hand landmarks \<Rightarrow>
               (case classifyGesture landmarks of
                  None \<Rightarrow> (None, c1)
                | Some g \<Rightarrow> debouncedModeSwitch (timestamp f) g current (c1\<lparr>handPosition := position g\<rparr>)))"

text \<open>
  A run of the loop over a sequence of frames, each paired with the mode that
  \<^verbatim>\<open>modeRef.current\<close> holds when the frame is processed. The result lists the timestamps
  of the frames at which a mode change was issued, in order.
\<close>

fun acceptedTimes :: "(Frame \<times> AppMode) list \<Rightarrow> ControllerState \<Rightarrow> real list" where
  "acceptedTimes [] c = []"
| "acceptedTimes ((f, current) # fs) c =
     (case renderLoop f current c of
        (Some m, c') \<Rightarrow> timestamp f # acceptedTimes fs c'
      | (None, c') \<Rightarrow> acceptedTimes fs c')"

text \<open>The state of the closure when the effect starts.\<close>

definition initialController :: ControllerState where
  "initialController = \<lparr> lastDetectionTime = 0, lastGestureChangeTime = 0, handPosition = (0, 0) \<rparr>"

section \<open>Application controller (App.tsx)\<close>

record AppState =
  mode :: AppMode
  photos :: "PhotoData list"
  currentPhotoIndex :: int

definition DEFAULT_PHOTOS :: "PhotoData list" where
  "DEFAULT_PHOTOS =
     [\<lparr> id_photo = ''1'', url = ''https://picsum.photos/id/1015/400/400'' \<rparr>,
      \<lparr> id_photo = ''2'', url = ''https://picsum.photos/id/1016/400/400'' \<rparr>,
      \<lparr> id_photo = ''3'', url = ''https://picsum.photos/id/1018/400/400'' \<rparr>,
      \<lparr> id_photo = ''4'', url = ''https://picsum.photos/id/1019/400/400'' \<rparr>,
      \<lparr> id_photo = ''5'', url = ''https://picsum.photos/id/1025/400/400'' \<rparr>]"

definition initialApp :: AppState where
  "initialApp = \<lparr> mode = TREE, photos = DEFAULT_PHOTOS, currentPhotoIndex = 0 \<rparr>"

text \<open>
  The remainder operator \<^verbatim>\<open>%\<close> on integer-valued numbers: the result takes the sign
  of the dividend, and a zero divisor gives NaN, which is the value \<open>None\<close>.
\<close>

definition js_rem :: "int \<Rightarrow> int \<Rightarrow> int option" where
  "js_rem a b = (if b = 0 then None else Some (sgn a * (\<bar>a\<bar> mod \<bar>b\<bar>)))"

text \<open>
  \<^verbatim>\<open>handleModeChange\<close>: the updater passed to \<^verbatim>\<open>setMode\<close>, with the nested update of
  the photo index. The result is \<open>None\<close> when the index would become NaN.
\<close>

definition handleModeChange :: "AppMode \<Rightarrow> AppState \<Rightarrow> AppState option" where
  "handleModeChange newMode s =
     (let prevMode = mode s
      in if newMode = PHOTO_ZOOM \<and> prevMode \<noteq> PHOTO_ZOOM then
           (if length (photos s) > 0 then
              (case js_rem (currentPhotoIndex s + 1) (int (length (photos s))) of
                 None \<Rightarrow> None
               | Some i \<Rightarrow> Some (s\<lparr>currentPhotoIndex := i, mode := newMode\<rparr>))
            else Some (s\<lparr>mode := newMode\<rparr>))
         else Some (s\<lparr>mode := newMode\<rparr>))"

definition handlePhotoUpload :: "PhotoData list \<Rightarrow> AppState \<Rightarrow> AppState" where
  "handlePhotoUpload newPhotos s = s\<lparr>photos := photos s @ newPhotos\<rparr>"

definition handleDeletePhoto :: "string \<Rightarrow> AppState \<Rightarrow> AppState" where
  "handleDeletePhoto i s =
     (let updatedPhotos = filter (\<lambda>p. id_photo p \<noteq> i) (photos s)
      in if currentPhotoIndex s \<ge> int (length updatedPhotos) then
           s\<lparr>photos := updatedPhotos, currentPhotoIndex := max 0 (int (length updatedPhotos) - 1)\<rparr>
         else s\<lparr>photos := updatedPhotos\<rparr>)"

text \<open>\<^verbatim>\<open>Array.prototype.findIndex\<close>: the first position that satisfies the test, or -1.\<close>

fun findIndexFrom :: "('a \<Rightarrow> bool) \<Rightarrow> 'a list \<Rightarrow> int \<Rightarrow> int" where
  "findIndexFrom P [] k = - 1"
| "findIndexFrom P (x # xs) k = (if P x then k else findIndexFrom P xs (k + 1))"

definition findIndex :: "('a \<Rightarrow> bool) \<Rightarrow> 'a list \<Rightarrow> int" where
  "findIndex P xs = findIndexFrom P xs 0"

definition handlePhotoClick :: "string \<Rightarrow> AppState \<Rightarrow> AppState" where
  "handlePhotoClick i s =
     (let idx = findIndex (\<lambda>p. id_photo p = i) (photos s)
      in if idx \<noteq> - 1 then s\<lparr>currentPhotoIndex := idx, mode := PHOTO_ZOOM\<rparr> else s)"

text \<open>
  The events the application reacts to: a frame of the hand controller, one of the mode
  buttons (which call \<^verbatim>\<open>setMode\<close> directly), an upload, a deletion, a click on a photo.
\<close>

datatype Event =
    FrameEv Frame
  | SetMode AppMode
  | PhotoUpload "PhotoData list"
  | DeletePhoto string
  | PhotoClick string

fun sysStep :: "Event \<Rightarrow> AppState \<times> ControllerState \<Rightarrow> (AppState \<times> ControllerState) option" where
  "sysStep (FrameEv f) (a, c) =
     (case renderLoop f (mode a) c of
        (None, c') \<Rightarrow> Some (a, c')
      | (Some m, c') \<Rightarrow>
          (case handleModeChange m a of None \<Rightarrow> None | Some a' \<Rightarrow> Some (a', c')))"
| "sysStep (SetMode m) (a, c) = Some (a\<lparr>mode := m\<rparr>, c)"
| "sysStep (PhotoUpload ps) (a, c) = Some (handlePhotoUpload ps a, c)"
| "sysStep (DeletePhoto i) (a, c) = Some (handleDeletePhoto i a, c)"
| "sysStep (PhotoClick i) (a, c) = Some (handlePhotoClick i a, c)"

fun runEvents :: "Event list \<Rightarrow> AppState \<times> ControllerState \<Rightarrow> (AppState \<times> ControllerState) option" where
  "runEvents [] st = Some st"
| "runEvents (e # es) st =
     (case sysStep e st of None \<Rightarrow> None | Some st' \<Rightarrow> runEvents es st')"

section \<open>Double-precision arithmetic\<close>

text \<open>Rounding of a real to the nearest integer, ties to the even one.\<close>

definition roundHalfEven :: "real \<Rightarrow> int" where
  "roundHalfEven q =
     (let n = \<lfloor>q\<rfloor>; r = q - of_int n
      in if r < 1 / 2 then n else if 1 / 2 < r then n + 1 else if even n then n else n + 1)"

text \<open>
  Rounding of a real to the nearest binary64 number (53 significant bits, ties to even),
  which is what every arithmetic operation on JavaScript numbers does to its exact result.
  Overflow and subnormal numbers are not modelled: the values below stay far from both.
\<close>

definition fl64 :: "real \<Rightarrow> real" where
  "fl64 x =
     (if x = 0 then 0
      else let e = \<lfloor>log 2 \<bar>x\<bar>\<rfloor> - 52
           in of_int (roundHalfEven (x / 2 powr (of_int e))) * 2 powr (of_int e))"

text \<open>
  The functions of \<^verbatim>\<open>Math\<close> that the spiral construction calls. The language leaves their
  accuracy to the implementation; they are taken here as the correctly rounded values, and
  no statement below depends on more than their being some double.
\<close>

definition Math_PI :: real where
  "Math_PI = fl64 pi"

definition Math_sqrt :: "real \<Rightarrow> real" where
  "Math_sqrt x = fl64 (sqrt x)"

definition Math_cos :: "real \<Rightarrow> real" where
  "Math_cos x = fl64 (cos x)"

definition Math_sin :: "real \<Rightarrow> real" where
  "Math_sin x = fl64 (sin x)"

section \<open>Scene choreographer (TreeParticles.tsx)\<close>

text \<open>\<^verbatim>\<open>THREE.Vector3\<close>, with the three of its methods that the frame loop uses.\<close>

datatype Vector3 = Vec3 (v_x: real) (v_y: real) (v_z: real)

definition distanceTo :: "Vector3 \<Rightarrow> Vector3 \<Rightarrow> real" where
  "distanceTo a b = sqrt ((v_x a - v_x b)\<^sup>2 + (v_y a - v_y b)\<^sup>2 + (v_z a - v_z b)\<^sup>2)"

definition lerp :: "Vector3 \<Rightarrow> Vector3 \<Rightarrow> real \<Rightarrow> Vector3" where
  "lerp a v alpha =
     Vec3 (v_x a + (v_x v - v_x a) * alpha)
          (v_y a + (v_y v - v_y a) * alpha)
          (v_z a + (v_z v - v_z a) * alpha)"


definition STARDUST_COUNT :: real where
  "STARDUST_COUNT = 12000"

definition BULB_COUNT :: real where
  "BULB_COUNT = 300"

definition TREE_HEIGHT :: real where
  "TREE_HEIGHT = 18"


definition INTRO_DURATION :: real where
  "INTRO_DURATION = 4.0"

definition cubicOut :: "real \<Rightarrow> real" where
  "cubicOut t = (let f = fl64 (t - 1.0) in fl64 (fl64 (fl64 (f * f) * f) + 1.0))"

text \<open>\<^verbatim>\<open>Math.atan2(y, x)\<close>: the angle of the point \<open>(x, y)\<close>, in \<open>(-\<pi>, \<pi>]\<close>, and 0 at the origin.\<close>

definition atan2 :: "real \<Rightarrow> real \<Rightarrow> real" where
  "atan2 y x =
     (if x > 0 then arctan (y / x)
      else if x < 0 then (if y \<ge> 0 then arctan (y / x) + pi else arctan (y / x) - pi)
      else if y > 0 then pi / 2
      else if y < 0 then - (pi / 2)
      else 0)"

definition Math_atan2 :: "real \<Rightarrow> real \<Rightarrow> real" where
  "Math_atan2 y x = fl64 (atan2 y x)"

text \<open>
  \<^verbatim>\<open>calculateSpiralConstruction\<close>, every operation rounded as the program rounds it. The
  literals 1.8 and 1.2 are the doubles nearest to them; the other literals are doubles.
  The source writes the position into \<^verbatim>\<open>outVec\<close> and returns the scale factor; the model
  returns both. Every read of \<^verbatim>\<open>finalPos\<close> comes before the write to \<^verbatim>\<open>outVec\<close>, so the
  call with both arguments the same vector (the stardust loop) computes the same values.
\<close>

definition calculateSpiralConstruction :: "Vector3 \<Rightarrow> real \<Rightarrow> Vector3 \<times> real" where
  "calculateSpiralConstruction finalPos time =
     (let normalizedHeight = fl64 (fl64 (v_y finalPos + fl64 (TREE_HEIGHT / 2)) / TREE_HEIGHT);
          startDelay = fl64 (normalizedHeight * fl64 1.8);
          travelDuration = fl64 1.8;
          p = fl64 (fl64 (time - startDelay) / travelDuration)
      in if p < 0 then
           (let waitAngle = fl64 (fl64 (time * 2.0) + fl64 (normalizedHeight * 10.0))
            in (Vec3 (fl64 (Math_cos waitAngle * 5)) (- 12) (fl64 (Math_sin waitAngle * 5)), 0))
         else if p > 1 then (finalPos, 1)
         else
           (let ease = cubicOut p;
                startY = - 12.0;
                currentY = fl64 (startY + fl64 (fl64 (v_y finalPos - startY) * ease));
                finalRadius = Math_sqrt (fl64 (fl64 (v_x finalPos * v_x finalPos)
                                               + fl64 (v_z finalPos * v_z finalPos)));
                startRadius = fl64 (fl64 (finalRadius * 1.5) + 8.0);
                currentRadius = fl64 (startRadius + fl64 (fl64 (finalRadius - startRadius) * ease));
                finalAngle = Math_atan2 (v_z finalPos) (v_x finalPos);
                totalSpins = fl64 (Math_PI * fl64 1.2);
                currentAngle = fl64 (finalAngle - fl64 (totalSpins * fl64 (1.0 - ease)))
            in (Vec3 (fl64 (currentRadius * Math_cos currentAngle)) currentY
                     (fl64 (currentRadius * Math_sin currentAngle)),
                ease)))"




subsection \<open>The per-frame update of the stardust points\<close>

text \<open>
  The position buffer and the two target buffers, one vector per point (the source keeps
  them flat, three numbers per point).
\<close>

record StardustData =
  positions :: "Vector3 list"
  targetTree :: "Vector3 list"
  targetScatter :: "Vector3 list"

text \<open>The target \<^verbatim>\<open>(tx, ty, tz)\<close> of one point after the intro.\<close>

definition stardustTarget :: "AppMode \<Rightarrow> real \<Rightarrow> Vector3 \<Rightarrow> Vector3 \<Rightarrow> Vector3" where
  "stardustTarget m time tTree tScatter =
     (if m = TREE then
        Vec3 (v_x tTree + sin (time * 0.2 + v_y tTree * 0.5) * 0.05) (v_y tTree) (v_z tTree)
      else tScatter)"

text \<open>The snap or the interpolation step of one point towards its target.\<close>

definition stardustMove :: "Vector3 \<Rightarrow> Vector3 \<Rightarrow> real \<Rightarrow> Vector3" where
  "stardustMove cur t lerpFactor =
     (if (v_x t - v_x cur)\<^sup>2 + (v_y t - v_y cur)\<^sup>2 + (v_z t - v_z cur)\<^sup>2 > 100 then t
      else Vec3 (v_x cur + (v_x t - v_x cur) * lerpFactor)
                (v_y cur + (v_y t - v_y cur) * lerpFactor)
                (v_z cur + (v_z t - v_z cur) * lerpFactor))"

text \<open>The body of the loop over the points, for the point \<open>i\<close>.\<close>

definition stardustElement ::
  "bool \<Rightarrow> AppMode \<Rightarrow> real \<Rightarrow> real \<Rightarrow> Vector3 \<Rightarrow> Vector3 \<Rightarrow> Vector3 \<Rightarrow> Vector3" where
  "stardustElement isIntro m time lerpFactor tTree tScatter cur =
     (if isIntro then fst (calculateSpiralConstruction tTree time)
      else stardustMove cur (stardustTarget m time tTree tScatter) lerpFactor)"

text \<open>
  The stardust block of \<^verbatim>\<open>useFrame\<close>: the new buffers, and the count given to
  \<^verbatim>\<open>setDrawRange(0, activeStardustCount)\<close>. A write past the end of a typed array is
  ignored, as \<open>list_update\<close> past the end of a list is.
\<close>

definition stardustUpdate ::
  "AppMode \<Rightarrow> real \<Rightarrow> real \<Rightarrow> real \<Rightarrow> StardustData \<Rightarrow> StardustData \<times> int" where
  "stardustUpdate m time delta density d =
     (let lerpFactor = delta * 1.5;
          isIntro = (time < INTRO_DURATION);
          activeStardustCount = \<lfloor>fl64 (STARDUST_COUNT * density)\<rfloor>;
          currPos = fold (\<lambda>i pos. pos[i := stardustElement isIntro m time lerpFactor
                                             (targetTree d ! i) (targetScatter d ! i) (pos ! i)])
                         [0..<nat activeStardustCount] (positions d)
      in (d\<lparr>positions := currPos\<rparr>, activeStardustCount))"

subsection \<open>The per-frame update of the bulbs\<close>

record Bulb =
  treePos :: Vector3
  scatterPos :: Vector3
  currentPos :: Vector3
  scale :: real

definition bulbMove :: "Vector3 \<Rightarrow> Vector3 \<Rightarrow> real \<Rightarrow> Vector3" where
  "bulbMove cur target lerpFactor =
     (if distanceTo cur target > 10 then target else lerp cur target lerpFactor)"

text \<open>The body of the loop over the bulbs: the new \<^verbatim>\<open>currentPos\<close> of the bulb.\<close>

definition bulbElement :: "bool \<Rightarrow> AppMode \<Rightarrow> real \<Rightarrow> real \<Rightarrow> Bulb \<Rightarrow> Bulb" where
  "bulbElement isIntro m time lerpFactor d =
     (if isIntro then d\<lparr>currentPos := fst (calculateSpiralConstruction (treePos d) time)\<rparr>
      else
        let target = (if m = TREE then treePos d else scatterPos d)
        in d\<lparr>currentPos := bulbMove (currentPos d) target lerpFactor\<rparr>)"

text \<open>
  The bulb block of \<^verbatim>\<open>useFrame\<close>: the new bulb data and the instance count of the mesh.
  Reading \<^verbatim>\<open>bulbData[i]\<close> past the end gives \<^verbatim>\<open>undefined\<close> and the access to its
  field throws: the value \<open>None\<close>.
\<close>

definition bulbsUpdate ::
  "AppMode \<Rightarrow> real \<Rightarrow> real \<Rightarrow> real \<Rightarrow> Bulb list \<Rightarrow> (Bulb list \<times> int) option" where
  "bulbsUpdate m time delta density bulbData =
     (let lerpFactor = delta * 1.5;
          isIntro = (time < INTRO_DURATION);
          activeBulbCount = \<lfloor>fl64 (BULB_COUNT * density)\<rfloor>
      in if nat activeBulbCount > length bulbData then None
         else Some (fold (\<lambda>i bs. bs[i := bulbElement isIntro m time lerpFactor (bs ! i)])
                         [0..<nat activeBulbCount] bulbData,
                    activeBulbCount))"

subsection \<open>The per-frame update of the cubes, the top star and the photo cards\<close>




section \<open>The transition table as the specification words it\<close>

text \<open>
  The three rules of the specification in their order, on the three classification flags
  and the current mode; the code's chain is compared with it below.
\<close>

definition transitionTable_spec :: "bool \<Rightarrow> bool \<Rightarrow> bool \<Rightarrow> AppMode \<Rightarrow> AppMode" where
  "transitionTable_spec fist pinching opened m =
     (if fist \<and> m \<noteq> TREE then TREE
      else if pinching \<and> m = SCATTER then PHOTO_ZOOM
      else if opened \<and> \<not> pinching \<and> m \<in> {PHOTO_ZOOM, TREE} then SCATTER
      else m)"

section \<open>Concrete inputs\<close>

text \<open>Hands, gestures and frames on which the definitions are evaluated below.\<close>

definition lm :: "real \<Rightarrow> real \<Rightarrow> Landmark" where
  "lm a b = \<lparr> lm_x = a, lm_y = b, lm_z = 0 \<rparr>"

definition hand :: "Landmark \<Rightarrow> Landmark \<Rightarrow> Landmark \<Rightarrow> Landmark list" where
  "hand thumbTip tip pip =
     [lm 0 0, lm 0 0, lm 0 0, lm 0 0, thumbTip, lm 0 0, pip, lm 0 0, tip, lm 0 0, pip,
      lm 0 0, tip, lm 0 0, pip, lm 0 0, tip, lm 0 0, pip, lm 0 0, tip]"

definition fistHand :: "Landmark list" where
  "fistHand = hand (lm 0.3 0) (lm 0 0.1) (lm 0 0.2)"

definition openHand :: "Landmark list" where
  "openHand = hand (lm 0.3 0.1) (lm 0 0.4) (lm 0 0.2)"

definition pinchHand :: "Landmark list" where
  "pinchHand = hand (lm 0 0.4) (lm 0 0.4) (lm 0 0.2)"

text \<open>
  A hand with the wrist away from the origin: index and ring finger stretched, middle and
  little finger curled, thumb tip next to the index tip in the image plane but far from it
  in depth.
\<close>

definition mixedHand :: "Landmark list" where
  "mixedHand =
     [\<lparr> lm_x = 0.5, lm_y = 0.9, lm_z = 0.1 \<rparr>, lm 0 0, lm 0 0, lm 0 0,
      \<lparr> lm_x = 0.46, lm_y = 0.53, lm_z = 0.5 \<rparr>, lm 0 0,
      lm 0.47 0.6, lm 0 0, \<lparr> lm_x = 0.45, lm_y = 0.5, lm_z = - 0.5 \<rparr>, lm 0.4 0.7,
      lm 0.5 0.6, lm 0 0, lm 0.52 0.7, lm 0 0,
      lm 0.6 0.9, lm 0 0, lm 0.8 0.9, lm 0 0,
      lm 0.75 0.9, lm 0 0, lm 0.6 0.9]"

definition exampleFrames :: "(Frame \<times> AppMode) list" where
  "exampleFrames =
     [(\<lparr> timestamp = 1000, videoPlaying = True, detection = Hand fistHand \<rparr>, SCATTER),
      (\<lparr> timestamp = 1500, videoPlaying = True, detection = Hand openHand \<rparr>, TREE),
      (\<lparr> timestamp = 2000, videoPlaying = True, detection = Hand openHand \<rparr>, TREE)]"

definition openGesture :: HandGesture where
  "openGesture = \<lparr> isFist = False, isOpen = True, isPinching = False, position = (1, - 1) \<rparr>"

definition pinchGesture :: HandGesture where
  "pinchGesture = \<lparr> isFist = False, isOpen = True, isPinching = True, position = (1, - 1) \<rparr>"

definition frameAt :: "real \<Rightarrow> Landmark list \<Rightarrow> Frame" where
  "frameAt ts landmarks = \<lparr> timestamp = ts, videoPlaying = True, detection = Hand landmarks \<rparr>"

definition photoA :: PhotoData where "photoA = \<lparr> id_photo = ''A'', url = ''a.png'' \<rparr>"
definition photoB :: PhotoData where "photoB = \<lparr> id_photo = ''B'', url = ''b.png'' \<rparr>"
definition photoC :: PhotoData where "photoC = \<lparr> id_photo = ''C'', url = ''c.png'' \<rparr>"

definition exampleApp :: AppState where
  "exampleApp = \<lparr> mode = TREE, photos = [photoA, photoB, photoC], currentPhotoIndex = 0 \<rparr>"

definition lastPhotoFocused :: AppState where
  "lastPhotoFocused = initialApp\<lparr>currentPhotoIndex := 4, mode := PHOTO_ZOOM\<rparr>"

definition exampleStardust :: StardustData where
  "exampleStardust =
     \<lparr> positions = replicate 12000 (Vec3 0 (- 20) 0),
       targetTree = replicate 12000 (Vec3 0 0 0),
       targetScatter = replicate 12000 (Vec3 1 2 3) \<rparr>"


definition exampleBulb :: Bulb where
  "exampleBulb = \<lparr> treePos = Vec3 1 0 0, scatterPos = Vec3 0 0 5, currentPos = Vec3 0 0 0, scale = 1 \<rparr>"

section \<open>Gesture classifier and mode transition policy: properties\<close>

lemma fold_count_card:
  "fold (\<lambda>i n. if P i then n + 1 else n) [0..<k] (m::nat) = m + card {i. i < k \<and> P i}"
proof (induction k arbitrary: m)
  case 0
  then show ?case by simp
next
  case (Suc k)
  have split: "{i. i < Suc k \<and> P i} = (if P k then insert k {i. i < k \<and> P i} else {i. i < k \<and> P i})"
    by (auto simp: less_Suc_eq)
  have fin: "finite {i. i < k \<and> P i}" by simp
  have notin: "k \<notin> {i. i < k \<and> P i}" by simp
  show ?case
    using Suc.IH fin notin by (simp add: split)
qed

lemma curledFingers_card:
  "curledFingers landmarks = card {i. i < 4 \<and> fingerCurled landmarks i}"
proof -
  have len: "length tips = 4" by (simp add: tips_def)
  show ?thesis unfolding curledFingers_def len fold_count_card by simp
qed

lemma card_four_all:
  "(4 \<le> card {i. i < (4::nat) \<and> P i}) = (\<forall>i<4. P i)"
proof
  assume h: "4 \<le> card {i. i < (4::nat) \<and> P i}"
  have sub: "{i. i < (4::nat) \<and> P i} \<subseteq> {..<4}" by auto
  have "card {i. i < (4::nat) \<and> P i} \<le> card {..<(4::nat)}"
    by (rule card_mono) (use sub in auto)
  with h have "card {i. i < (4::nat) \<and> P i} = card {..<(4::nat)}" by simp
  with sub have "{i. i < (4::nat) \<and> P i} = {..<4}"
    by (simp add: card_subset_eq)
  then show "\<forall>i<4. P i" by auto
next
  assume "\<forall>i<4. P i"
  then have "{i. i < (4::nat) \<and> P i} = {..<4}" by auto
  then show "4 \<le> card {i. i < (4::nat) \<and> P i}" by simp
qed

lemma renderLoop_cases:
  "(fst (renderLoop f current c) = None \<and>
      lastGestureChangeTime (snd (renderLoop f current c)) = lastGestureChangeTime c) \<or>
   (fst (renderLoop f current c) \<noteq> None \<and>
      lastGestureChangeTime (snd (renderLoop f current c)) = timestamp f \<and>
      800 < timestamp f - lastGestureChangeTime c)"
  by (simp add: renderLoop_def debouncedModeSwitch_def Let_def split: Detection.splits option.splits)

lemma acceptedTimes_after:
  "\<forall>t \<in> set (acceptedTimes fs c). 800 < t - lastGestureChangeTime c"
proof (induction fs arbitrary: c)
  case Nil
  then show ?case by simp
next
  case (Cons p fs)
  obtain f current where p: "p = (f, current)" by (cases p)
  obtain r c' where rl: "renderLoop f current c = (r, c')" by (cases "renderLoop f current c")
  from renderLoop_cases [of f current c] rl
  consider "r = None" "lastGestureChangeTime c' = lastGestureChangeTime c"
    | "r \<noteq> None" "lastGestureChangeTime c' = timestamp f" "800 < timestamp f - lastGestureChangeTime c"
    by auto
  then show ?case
  proof cases
    case 1
    then show ?thesis using Cons.IH [of c'] by (simp add: p rl)
  next
    case 2
    then obtain m where m: "r = Some m" by auto
    have "\<forall>t \<in> set (acceptedTimes fs c'). 800 < t - lastGestureChangeTime c" 
      using Cons.IH [of c'] 2 by fastforce
    then show ?thesis using 2 by (simp add: p rl m)
  qed
qed

lemma acceptedTimes_spaced:
  "sorted_wrt (\<lambda>a b. 800 < b - a) (acceptedTimes fs c)"
proof (induction fs arbitrary: c)
  case Nil
  then show ?case by simp
next
  case (Cons p fs)
  obtain f current where p: "p = (f, current)" by (cases p)
  obtain r c' where rl: "renderLoop f current c = (r, c')" by (cases "renderLoop f current c")
  show ?case
  proof (cases r)
    case None
    then show ?thesis using Cons.IH [of c'] by (simp add: p rl)
  next
    case (Some m)
    with renderLoop_cases [of f current c] rl
    have "lastGestureChangeTime c' = timestamp f" by simp
    with acceptedTimes_after [of fs c']
    have "\<forall>t \<in> set (acceptedTimes fs c'). 800 < t - timestamp f" by simp
    then show ?thesis using Cons.IH [of c'] by (simp add: p rl Some)
  qed
qed

lemma sqrt_less_const: "0 \<le> c \<Longrightarrow> sqrt x < c \<longleftrightarrow> x < c\<^sup>2"
proof -
  assume c: "0 \<le> c"
  then have "sqrt (c\<^sup>2) = c" by simp
  then have "sqrt x < c \<longleftrightarrow> sqrt x < sqrt (c\<^sup>2)" by simp
  then show ?thesis by (simp only: real_sqrt_less_iff)
qed

lemma pinch_threshold: "sqrt x < 0.05 \<longleftrightarrow> x < 0.0025"
  using sqrt_less_const [of "0.05" x] by (simp add: power2_eq_square)

lemma hand_nth:
  "hand a t p ! 0 = lm 0 0" "hand a t p ! 4 = a" "hand a t p ! 9 = lm 0 0"
  "hand a t p ! 8 = t" "hand a t p ! 12 = t" "hand a t p ! 16 = t" "hand a t p ! 20 = t"
  "hand a t p ! 6 = p" "hand a t p ! 10 = p" "hand a t p ! 14 = p" "hand a t p ! 18 = p"
  "length (hand a t p) = 21"
  by (simp_all add: hand_def)

lemma fingerCurled_hand:
  "i < 4 \<Longrightarrow> fingerCurled (hand a t p) i = (sqDistXY t (lm 0 0) < sqDistXY p (lm 0 0) * 1.2)"
proof -
  assume "i < 4"
  then consider "i = 0" | "i = 1" | "i = 2" | "i = 3" by linarith
  then show ?thesis
    by cases (simp_all add: fingerCurled_def tips_def pips_def hand_nth Let_def)
qed

lemma curledFingers_hand:
  "curledFingers (hand a t p) = (if sqDistXY t (lm 0 0) < sqDistXY p (lm 0 0) * 1.2 then 4 else 0)"
proof -
  have "{i. i < 4 \<and> fingerCurled (hand a t p) i} =
        (if sqDistXY t (lm 0 0) < sqDistXY p (lm 0 0) * 1.2 then {..<4} else {})"
    using fingerCurled_hand [of _ a t p] by auto
  then show ?thesis by (simp add: curledFingers_card)
qed

lemma classify_fistHand:
  "classifyGesture fistHand = Some \<lparr> isFist = True, isOpen = False, isPinching = False, position = (1, - 1) \<rparr>"
  by (simp add: classifyGesture_def fistHand_def curledFingers_hand hand_nth sqDistXY_def lm_def Let_def power2_eq_square)

lemma classify_openHand:
  "classifyGesture openHand = Some \<lparr> isFist = False, isOpen = True, isPinching = False, position = (1, - 1) \<rparr>"
  unfolding classifyGesture_def Let_def pinch_threshold
  by (simp add: openHand_def curledFingers_hand hand_nth sqDistXY_def lm_def Let_def power2_eq_square)

lemma classify_pinchHand:
  "classifyGesture pinchHand = Some \<lparr> isFist = False, isOpen = True, isPinching = True, position = (1, - 1) \<rparr>"
  by (simp add: classifyGesture_def pinchHand_def curledFingers_hand hand_nth sqDistXY_def lm_def Let_def power2_eq_square)

lemma acceptedTimes_example:
  "acceptedTimes exampleFrames initialController = [1000, 2000]"
  by (simp add: exampleFrames_def initialController_def renderLoop_def debouncedModeSwitch_def
      nextModeOf_def DETECTION_INTERVAL_def classify_fistHand classify_openHand Let_def)

text \<open>
  Claim C1. Whatever the frames and whatever mode each of them finds, any two frames at
  which the loop issues a mode change are more than 800 ms apart (so never less than 800 ms),
  and each of them is more than 800 ms after the timer value the run started from. One call
  of the loop either issues no change and leaves the timer \<^verbatim>\<open>lastGestureChangeTime\<close> as
  it was, or issues one and sets the timer to the frame's timestamp. A classification for
  which no rule of the table fires issues no change and leaves the whole controller state,
  the timer included, unchanged; and a frame that issues no change leaves the application
  state, the mode included, as it was.
\<close>

theorem debounce_800ms:
  "(\<forall>i j. i < j \<longrightarrow> j < length (acceptedTimes fs c) \<longrightarrow>
       800 < acceptedTimes fs c ! j - acceptedTimes fs c ! i)
   \<and> (\<forall>t \<in> set (acceptedTimes fs c). 800 < t - lastGestureChangeTime c)
   \<and> (fst (renderLoop f current c) = None \<longrightarrow>
        lastGestureChangeTime (snd (renderLoop f current c)) = lastGestureChangeTime c)
   \<and> (fst (renderLoop f current c) \<noteq> None \<longrightarrow>
        lastGestureChangeTime (snd (renderLoop f current c)) = timestamp f
        \<and> 800 < timestamp f - lastGestureChangeTime c)
   \<and> (nextModeOf g current = current \<longrightarrow> debouncedModeSwitch ts g current c = (None, c))
   \<and> (fst (renderLoop f (mode a) c) = None \<longrightarrow>
        sysStep (FrameEv f) (a, c) = Some (a, snd (renderLoop f (mode a) c)))"
proof (intro conjI)
  show "\<forall>i j. i < j \<longrightarrow> j < length (acceptedTimes fs c) \<longrightarrow>
       800 < acceptedTimes fs c ! j - acceptedTimes fs c ! i"
    using acceptedTimes_spaced [of fs c] by (simp add: sorted_wrt_iff_nth_less)
  show "\<forall>t \<in> set (acceptedTimes fs c). 800 < t - lastGestureChangeTime c"
    by (rule acceptedTimes_after)
  show "fst (renderLoop f current c) = None \<longrightarrow>
        lastGestureChangeTime (snd (renderLoop f current c)) = lastGestureChangeTime c"
    using renderLoop_cases [of f current c] by blast
  show "fst (renderLoop f current c) \<noteq> None \<longrightarrow>
        lastGestureChangeTime (snd (renderLoop f current c)) = timestamp f
        \<and> 800 < timestamp f - lastGestureChangeTime c"
    using renderLoop_cases [of f current c] by auto
  show "nextModeOf g current = current \<longrightarrow> debouncedModeSwitch ts g current c = (None, c)"
    by (simp add: debouncedModeSwitch_def)
  show "fst (renderLoop f (mode a) c) = None \<longrightarrow>
        sysStep (FrameEv f) (a, c) = Some (a, snd (renderLoop f (mode a) c))"
    by (cases "renderLoop f (mode a) c") simp
qed

lemma handleModeChange_Some:
  "handleModeChange newMode s =
     Some (if newMode = PHOTO_ZOOM \<and> mode s \<noteq> PHOTO_ZOOM \<and> photos s \<noteq> []
           then s\<lparr>currentPhotoIndex := sgn (currentPhotoIndex s + 1) *
                     (\<bar>currentPhotoIndex s + 1\<bar> mod int (length (photos s))), mode := newMode\<rparr>
           else s\<lparr>mode := newMode\<rparr>)"
  by (simp add: handleModeChange_def js_rem_def Let_def)

lemma nextModeOf_table:
  "nextModeOf g current = transitionTable_spec (isFist g) (isPinching g) (isOpen g) current"
  by (simp add: nextModeOf_def transitionTable_spec_def)

lemma renderLoop_through:
  assumes "DETECTION_INTERVAL \<le> timestamp f - lastDetectionTime c" "videoPlaying f"
    "detection f = Hand landmarks" "classifyGesture landmarks = Some g"
  shows "renderLoop f current c =
           debouncedModeSwitch (timestamp f) g current
             (c\<lparr>lastDetectionTime := timestamp f, handPosition := position g\<rparr>)"
  using assms by (simp add: renderLoop_def Let_def)

text \<open>
  Claim C2. Once more than 800 ms have passed since the last accepted change, the switch
  follows the priority table: fist outside TREE goes to TREE; else pinch in SCATTER goes to
  PHOTO_ZOOM; else open without pinch in PHOTO_ZOOM or TREE goes to SCATTER; else nothing
  changes. A pinch in TREE issues no change, a change to SCATTER is only issued for a frame
  that is not a pinch, and a frame that reaches the switch leaves the application in the
  mode the table gives.
\<close>

theorem transition_priority_table:
  assumes "800 < ts - lastGestureChangeTime c"
  shows "(let next = transitionTable_spec (isFist g) (isPinching g) (isOpen g) current
          in debouncedModeSwitch ts g current c =
               (if next \<noteq> current then (Some next, c\<lparr>lastGestureChangeTime := ts\<rparr>) else (None, c)))
    \<and> (isPinching g \<and> current = TREE \<longrightarrow> debouncedModeSwitch ts g current c = (None, c))
    \<and> (fst (debouncedModeSwitch ts g current c) = Some SCATTER \<longrightarrow> \<not> isPinching g)
    \<and> (DETECTION_INTERVAL \<le> timestamp f - lastDetectionTime c' \<and> videoPlaying f
         \<and> detection f = Hand landmarks \<and> classifyGesture landmarks = Some g
         \<and> 800 < timestamp f - lastGestureChangeTime c'
        \<longrightarrow> (\<exists>a' c''. sysStep (FrameEv f) (a, c') = Some (a', c'')
               \<and> mode a' = transitionTable_spec (isFist g) (isPinching g) (isOpen g) (mode a)))"
proof (intro conjI)
  show "let next = transitionTable_spec (isFist g) (isPinching g) (isOpen g) current
          in debouncedModeSwitch ts g current c =
               (if next \<noteq> current then (Some next, c\<lparr>lastGestureChangeTime := ts\<rparr>) else (None, c))"
    using assms by (simp add: debouncedModeSwitch_def nextModeOf_table Let_def)
  show "isPinching g \<and> current = TREE \<longrightarrow> debouncedModeSwitch ts g current c = (None, c)"
    by (simp add: debouncedModeSwitch_def nextModeOf_def)
  show "fst (debouncedModeSwitch ts g current c) = Some SCATTER \<longrightarrow> \<not> isPinching g"
    by (auto simp add: debouncedModeSwitch_def nextModeOf_def Let_def split: if_splits)
  show "DETECTION_INTERVAL \<le> timestamp f - lastDetectionTime c' \<and> videoPlaying f
         \<and> detection f = Hand landmarks \<and> classifyGesture landmarks = Some g
         \<and> 800 < timestamp f - lastGestureChangeTime c'
        \<longrightarrow> (\<exists>a' c''. sysStep (FrameEv f) (a, c') = Some (a', c'')
               \<and> mode a' = transitionTable_spec (isFist g) (isPinching g) (isOpen g) (mode a))"
  proof
    assume h: "DETECTION_INTERVAL \<le> timestamp f - lastDetectionTime c' \<and> videoPlaying f
         \<and> detection f = Hand landmarks \<and> classifyGesture landmarks = Some g
         \<and> 800 < timestamp f - lastGestureChangeTime c'"
    then have rl: "renderLoop f (mode a) c' =
           debouncedModeSwitch (timestamp f) g (mode a)
             (c'\<lparr>lastDetectionTime := timestamp f, handPosition := position g\<rparr>)"
      by (simp add: renderLoop_through)
    from h show "\<exists>a' c''. sysStep (FrameEv f) (a, c') = Some (a', c'')
               \<and> mode a' = transitionTable_spec (isFist g) (isPinching g) (isOpen g) (mode a)"
      by (simp add: rl debouncedModeSwitch_def nextModeOf_table Let_def handleModeChange_Some)
  qed
qed

lemma fingerCurled_coordinates:
  assumes "i < 4"
  shows "fingerCurled landmarks i \<longleftrightarrow>
           (lm_x (landmarks ! ([8, 12, 16, 20] ! i)) - lm_x (landmarks ! 0))\<^sup>2
             + (lm_y (landmarks ! ([8, 12, 16, 20] ! i)) - lm_y (landmarks ! 0))\<^sup>2
           < 1.2 * ((lm_x (landmarks ! ([6, 10, 14, 18] ! i)) - lm_x (landmarks ! 0))\<^sup>2
                    + (lm_y (landmarks ! ([6, 10, 14, 18] ! i)) - lm_y (landmarks ! 0))\<^sup>2)"
  unfolding fingerCurled_def tips_def pips_def sqDistXY_def Let_def
  by (simp add: mult.commute)

lemma fingerCurled_depth:
  assumes "21 \<le> length landmarks" "i < 4"
  shows "fingerCurled (map (\<lambda>l. l\<lparr>lm_z := zf l\<rparr>) landmarks) i = fingerCurled landmarks i"
proof -
  have "0 < length landmarks" using assms(1) by linarith
  then have wrist: "map (\<lambda>l. l\<lparr>lm_z := zf l\<rparr>) landmarks ! 0 = (landmarks ! 0)\<lparr>lm_z := zf (landmarks ! 0)\<rparr>"
    by (rule nth_map)
  from assms(2) consider "i = 0" | "i = 1" | "i = 2" | "i = 3" by linarith
  then show ?thesis
    using assms(1)
    by cases (simp_all add: fingerCurled_def tips_def pips_def sqDistXY_def Let_def wrist)
qed

lemma classifyGesture_depth:
  assumes "21 \<le> length landmarks"
  shows "classifyGesture (map (\<lambda>l. l\<lparr>lm_z := zf l\<rparr>) landmarks) = classifyGesture landmarks"
proof -
  have "{i. i < 4 \<and> fingerCurled (map (\<lambda>l. l\<lparr>lm_z := zf l\<rparr>) landmarks) i}
          = {i. i < 4 \<and> fingerCurled landmarks i}"
    using fingerCurled_depth [OF assms] by auto
  then have "curledFingers (map (\<lambda>l. l\<lparr>lm_z := zf l\<rparr>) landmarks) = curledFingers landmarks"
    by (simp only: curledFingers_card)
  then show ?thesis
    using assms by (simp add: classifyGesture_def Let_def)
qed

text \<open>
  Claim C3. On a hand with all 21 landmarks the classifier returns a gesture that is a
  function of the landmarks alone. Finger \<open>i\<close> of the four (tips 8, 12, 16, 20, middle joints
  6, 10, 14, 18, wrist 0) counts as curled iff the squared distance from the wrist to its
  tip is below 1.2 times the squared distance from the wrist to its middle joint; the
  counter is the number of curled fingers; \<open>isFist\<close> holds iff at least 4 of them, that is
  all four, are curled; \<open>isOpen\<close> iff at most one is; and \<open>isPinching\<close> iff the distance
  from thumb tip (4) to index tip (8) is below 0.05 and \<open>isFist\<close> is false. All distances
  are taken in the image plane, from the x and y coordinates: the depth coordinate of a
  landmark is never read, so changing it changes nothing.
\<close>

theorem classifyGesture_rules:
  assumes "21 \<le> length landmarks"
  shows "\<exists>g. classifyGesture landmarks = Some g
     \<and> (\<forall>i<4. fingerCurled landmarks i \<longleftrightarrow>
           (lm_x (landmarks ! ([8, 12, 16, 20] ! i)) - lm_x (landmarks ! 0))\<^sup>2
             + (lm_y (landmarks ! ([8, 12, 16, 20] ! i)) - lm_y (landmarks ! 0))\<^sup>2
           < 1.2 * ((lm_x (landmarks ! ([6, 10, 14, 18] ! i)) - lm_x (landmarks ! 0))\<^sup>2
                    + (lm_y (landmarks ! ([6, 10, 14, 18] ! i)) - lm_y (landmarks ! 0))\<^sup>2))
     \<and> curledFingers landmarks = card {i. i < 4 \<and> fingerCurled landmarks i}
     \<and> (isFist g \<longleftrightarrow> 4 \<le> card {i. i < 4 \<and> fingerCurled landmarks i})
     \<and> (isFist g \<longleftrightarrow> (\<forall>i<4. fingerCurled landmarks i))
     \<and> (isOpen g \<longleftrightarrow> card {i. i < 4 \<and> fingerCurled landmarks i} \<le> 1)
     \<and> (isPinching g \<longleftrightarrow>
          sqrt ((lm_x (landmarks ! 4) - lm_x (landmarks ! 8))\<^sup>2
                + (lm_y (landmarks ! 4) - lm_y (landmarks ! 8))\<^sup>2) < 0.05 \<and> \<not> isFist g)
     \<and> classifyGesture (map (\<lambda>l. l\<lparr>lm_z := zf l\<rparr>) landmarks) = Some g"
proof -
  have curled: "\<forall>i<4. fingerCurled landmarks i \<longleftrightarrow>
           (lm_x (landmarks ! ([8, 12, 16, 20] ! i)) - lm_x (landmarks ! 0))\<^sup>2
             + (lm_y (landmarks ! ([8, 12, 16, 20] ! i)) - lm_y (landmarks ! 0))\<^sup>2
           < 1.2 * ((lm_x (landmarks ! ([6, 10, 14, 18] ! i)) - lm_x (landmarks ! 0))\<^sup>2
                    + (lm_y (landmarks ! ([6, 10, 14, 18] ! i)) - lm_y (landmarks ! 0))\<^sup>2)"
    using fingerCurled_coordinates [of _ landmarks] by blast
  have fist: "(4 \<le> curledFingers landmarks) = (\<forall>i<4. fingerCurled landmarks i)"
    by (simp only: curledFingers_card card_four_all)
  have depth: "classifyGesture (map (\<lambda>l. l\<lparr>lm_z := zf l\<rparr>) landmarks) = classifyGesture landmarks"
    using assms by (rule classifyGesture_depth)
  obtain g where g: "classifyGesture landmarks = Some g"
    using assms by (simp add: classifyGesture_def Let_def)
  have flags: "isFist g = (4 \<le> curledFingers landmarks)" "isOpen g = (curledFingers landmarks \<le> 1)"
    "isPinching g = (sqrt ((lm_x (landmarks ! 4) - lm_x (landmarks ! 8))\<^sup>2
                + (lm_y (landmarks ! 4) - lm_y (landmarks ! 8))\<^sup>2) < 0.05 \<and> \<not> isFist g)"
    using assms g by (auto simp add: classifyGesture_def Let_def)
  show ?thesis
    using g curled fist depth flags curledFingers_card [of landmarks]
    by (intro exI [of _ g]) (simp only: simp_thms)
qed

lemma mixedHand_nth:
  "length mixedHand = 21"
  "mixedHand ! 0 = \<lparr> lm_x = 0.5, lm_y = 0.9, lm_z = 0.1 \<rparr>"
  "mixedHand ! 4 = \<lparr> lm_x = 0.46, lm_y = 0.53, lm_z = 0.5 \<rparr>"
  "mixedHand ! 8 = \<lparr> lm_x = 0.45, lm_y = 0.5, lm_z = - 0.5 \<rparr>"
  "mixedHand ! 9 = lm 0.4 0.7"
  "mixedHand ! 6 = lm 0.47 0.6" "mixedHand ! 10 = lm 0.5 0.6"
  "mixedHand ! 14 = lm 0.6 0.9" "mixedHand ! 18 = lm 0.75 0.9"
  "mixedHand ! 12 = lm 0.52 0.7" "mixedHand ! 16 = lm 0.8 0.9" "mixedHand ! 20 = lm 0.6 0.9"
  by (simp_all add: mixedHand_def)

lemma fingerCurled_mixedHand:
  "\<not> fingerCurled mixedHand 0" "fingerCurled mixedHand 1"
  "\<not> fingerCurled mixedHand 2" "fingerCurled mixedHand 3"
  by (simp_all add: fingerCurled_def tips_def pips_def sqDistXY_def Let_def mixedHand_nth lm_def
      power2_eq_square)

lemma curledFingers_mixedHand: "curledFingers mixedHand = 2"
proof -
  have "{i. i < 4 \<and> fingerCurled mixedHand i} = {1, 3}"
  proof (intro set_eqI iffI)
    fix i assume "i \<in> {i. i < 4 \<and> fingerCurled mixedHand i}"
    then have i: "i < 4" "fingerCurled mixedHand i" by simp_all
    from i(1) consider "i = 0" | "i = 1" | "i = 2" | "i = 3" by linarith
    then show "i \<in> {1, 3}" using i(2) fingerCurled_mixedHand by cases auto
  next
    fix i :: nat assume "i \<in> {1, 3}"
    then show "i \<in> {i. i < 4 \<and> fingerCurled mixedHand i}"
      using fingerCurled_mixedHand by auto
  qed
  then show ?thesis by (simp add: curledFingers_card)
qed

lemma classify_mixedHand:
  "classifyGesture mixedHand
     = Some \<lparr> isFist = False, isOpen = False, isPinching = True, position = (1 / 5, 2 / 5) \<rparr>"
  unfolding classifyGesture_def Let_def pinch_threshold curledFingers_mixedHand
  by (simp add: mixedHand_nth lm_def power2_eq_square)

lemma renderLoop_example_accept:
  "renderLoop (frameAt 1000 fistHand) SCATTER initialController =
     (Some TREE, \<lparr> lastDetectionTime = 1000, lastGestureChangeTime = 1000, handPosition = (1, - 1) \<rparr>)"
  by (simp add: frameAt_def renderLoop_def debouncedModeSwitch_def nextModeOf_def
      DETECTION_INTERVAL_def classify_fistHand Let_def initialController_def)

lemma renderLoop_example_reject:
  "renderLoop (frameAt 1500 openHand) TREE
     \<lparr> lastDetectionTime = 1000, lastGestureChangeTime = 1000, handPosition = (1, - 1) \<rparr> =
     (None, \<lparr> lastDetectionTime = 1500, lastGestureChangeTime = 1000, handPosition = (1, - 1) \<rparr>)"
  by (simp add: frameAt_def renderLoop_def debouncedModeSwitch_def nextModeOf_def
      DETECTION_INTERVAL_def classify_openHand Let_def)

theorem debounce_800ms_witness:
  "(0::nat) < 1 \<and> 1 < length (acceptedTimes exampleFrames initialController)
   \<and> 800 < acceptedTimes exampleFrames initialController ! 1
             - acceptedTimes exampleFrames initialController ! 0
   \<and> 2000 \<in> set (acceptedTimes exampleFrames initialController)
   \<and> 800 < 2000 - lastGestureChangeTime initialController
   \<and> fst (renderLoop (frameAt 1000 fistHand) SCATTER initialController) \<noteq> None
   \<and> lastGestureChangeTime (snd (renderLoop (frameAt 1000 fistHand) SCATTER initialController)) = 1000
   \<and> fst (renderLoop (frameAt 1500 openHand) TREE
             \<lparr> lastDetectionTime = 1000, lastGestureChangeTime = 1000, handPosition = (1, - 1) \<rparr>) = None
   \<and> lastGestureChangeTime (snd (renderLoop (frameAt 1500 openHand) TREE
             \<lparr> lastDetectionTime = 1000, lastGestureChangeTime = 1000, handPosition = (1, - 1) \<rparr>)) = 1000
   \<and> nextModeOf openGesture SCATTER = SCATTER
   \<and> debouncedModeSwitch 5000 openGesture SCATTER initialController = (None, initialController)
   \<and> fst (renderLoop (frameAt 1500 openHand) (mode initialApp)
             \<lparr> lastDetectionTime = 1000, lastGestureChangeTime = 1000, handPosition = (1, - 1) \<rparr>) = None
   \<and> sysStep (FrameEv (frameAt 1500 openHand))
         (initialApp, \<lparr> lastDetectionTime = 1000, lastGestureChangeTime = 1000, handPosition = (1, - 1) \<rparr>)
       = Some (initialApp,
               \<lparr> lastDetectionTime = 1500, lastGestureChangeTime = 1000, handPosition = (1, - 1) \<rparr>)"
proof -
  have t0: "lastGestureChangeTime initialController = 0"
    by (simp add: initialController_def)
  have n: "nextModeOf openGesture SCATTER = SCATTER"
    by (simp add: nextModeOf_def openGesture_def)
  have ts: "timestamp (frameAt 1000 fistHand) = 1000"
    by (simp add: frameAt_def)
  have m: "mode initialApp = TREE"
    by (simp add: initialApp_def)
  show ?thesis
    using debounce_800ms [where fs = exampleFrames and c = initialController
        and f = "frameAt 1000 fistHand" and current = SCATTER and g = openGesture and ts = 5000
        and a = initialApp]
      debounce_800ms [where fs = "[]" and f = "frameAt 1500 openHand" and current = TREE
        and c = "\<lparr> lastDetectionTime = 1000, lastGestureChangeTime = 1000, handPosition = (1, - 1) \<rparr>"
        and g = openGesture and ts = 0 and a = initialApp]
    by (simp add: acceptedTimes_example renderLoop_example_accept renderLoop_example_reject t0 n ts m)
qed

theorem transition_priority_table_witness:
  "800 < 1000 - lastGestureChangeTime initialController
   \<and> debouncedModeSwitch 1000 openGesture TREE initialController
        = (Some SCATTER, initialController\<lparr>lastGestureChangeTime := 1000\<rparr>)
   \<and> \<not> isPinching openGesture
   \<and> isPinching pinchGesture
   \<and> debouncedModeSwitch 1000 pinchGesture TREE initialController = (None, initialController)
   \<and> debouncedModeSwitch 1000 pinchGesture SCATTER initialController
        = (Some PHOTO_ZOOM, initialController\<lparr>lastGestureChangeTime := 1000\<rparr>)
   \<and> DETECTION_INTERVAL \<le> timestamp (frameAt 1000 openHand) - lastDetectionTime initialController
   \<and> videoPlaying (frameAt 1000 openHand)
   \<and> detection (frameAt 1000 openHand) = Hand openHand
   \<and> classifyGesture openHand = Some openGesture
   \<and> (\<exists>a' c''. sysStep (FrameEv (frameAt 1000 openHand)) (initialApp, initialController) = Some (a', c'')
         \<and> mode a' = SCATTER)"
proof -
  have t0: "lastGestureChangeTime initialController = 0" "lastDetectionTime initialController = 0"
    by (simp_all add: initialController_def)
  have fr: "timestamp (frameAt 1000 openHand) = 1000" "videoPlaying (frameAt 1000 openHand)"
    "detection (frameAt 1000 openHand) = Hand openHand"
    by (simp_all add: frameAt_def)
  have cl: "classifyGesture openHand = Some openGesture"
    by (simp add: classify_openHand openGesture_def)
  have g: "isFist openGesture = False" "isOpen openGesture = True" "isPinching openGesture = False"
    "isFist pinchGesture = False" "isOpen pinchGesture = True" "isPinching pinchGesture = True"
    by (simp_all add: openGesture_def pinchGesture_def)
  have m: "mode initialApp = TREE"
    by (simp add: initialApp_def)
  show ?thesis
    using transition_priority_table [where ts = 1000 and c = initialController and g = openGesture
        and current = TREE and f = "frameAt 1000 openHand" and c' = initialController
        and landmarks = openHand and a = initialApp]
      transition_priority_table [where ts = 1000 and c = initialController and g = pinchGesture
        and current = TREE and f = "frameAt 1000 openHand" and c' = initialController
        and landmarks = openHand and a = initialApp]
      transition_priority_table [where ts = 1000 and c = initialController and g = pinchGesture
        and current = SCATTER and f = "frameAt 1000 openHand" and c' = initialController
        and landmarks = openHand and a = initialApp]
    by (simp add: transitionTable_spec_def t0 fr cl g m DETECTION_INTERVAL_def)
qed

theorem classifyGesture_rules_witness:
  "21 \<le> length mixedHand
   \<and> classifyGesture mixedHand
       = Some \<lparr> isFist = False, isOpen = False, isPinching = True, position = (1 / 5, 2 / 5) \<rparr>
   \<and> \<not> fingerCurled mixedHand 0 \<and> fingerCurled mixedHand 1
   \<and> \<not> fingerCurled mixedHand 2 \<and> fingerCurled mixedHand 3
   \<and> card {i. i < 4 \<and> fingerCurled mixedHand i} = 2
   \<and> classifyGesture (map (\<lambda>l. l\<lparr>lm_z := 0\<rparr>) mixedHand) = classifyGesture mixedHand
   \<and> 21 \<le> length fistHand
   \<and> classifyGesture fistHand
       = Some \<lparr> isFist = True, isOpen = False, isPinching = False, position = (1, - 1) \<rparr>
   \<and> card {i. i < 4 \<and> fingerCurled fistHand i} = 4"
proof -
  have len: "21 \<le> length mixedHand" "21 \<le> length fistHand"
    by (simp_all add: mixedHand_nth fistHand_def hand_nth)
  note m = classifyGesture_rules [OF len(1), where zf = "\<lambda>l. 0"]
  note f = classifyGesture_rules [OF len(2), where zf = "\<lambda>l. 0"]
  from m obtain g where g: "curledFingers mixedHand = card {i. i < 4 \<and> fingerCurled mixedHand i}"
    "classifyGesture mixedHand = Some g"
    "classifyGesture (map (\<lambda>l. l\<lparr>lm_z := 0\<rparr>) mixedHand) = Some g"
    by blast
  have c1: "card {i. i < 4 \<and> fingerCurled mixedHand i} = 2"
    using g(1) by (simp only: curledFingers_mixedHand)
  have c2: "classifyGesture (map (\<lambda>l. l\<lparr>lm_z := 0\<rparr>) mixedHand) = classifyGesture mixedHand"
    using g(2) g(3) by simp
  from f obtain g' where g': "curledFingers fistHand = card {i. i < 4 \<and> fingerCurled fistHand i}"
    by blast
  have "curledFingers fistHand = 4"
    by (simp add: fistHand_def curledFingers_hand sqDistXY_def lm_def power2_eq_square)
  then have c3: "card {i. i < 4 \<and> fingerCurled fistHand i} = 4"
    using g' by simp
  show ?thesis
    using len c1 c2 c3 classify_mixedHand classify_fistHand fingerCurled_mixedHand
    by (simp only: simp_thms)
qed

section \<open>Application controller: properties\<close>

lemma js_rem_nonneg: "0 \<le> a \<Longrightarrow> 0 < b \<Longrightarrow> js_rem a b = Some (a mod b)"
  by (cases "a = 0") (simp_all add: js_rem_def)

lemma js_rem_congruent:
  assumes "0 < b" "js_rem a b = Some r"
  shows "(r - a) mod b = 0"
proof (cases "0 \<le> a")
  case True
  with assms have "r = a mod b" by (simp add: js_rem_nonneg)
  then show ?thesis by (simp add: mod_diff_left_eq)
next
  case False
  with assms have r: "r = - ((- a) mod b)" by (simp add: js_rem_def)
  have "(- ((- a) mod b) - a) mod b = (- (- a) - a) mod b"
    by (metis mod_diff_left_eq mod_minus_eq)
  then show ?thesis by (simp add: r)
qed

text \<open>
  Claim C4. The mode setter always completes, sets the requested mode and keeps the photo
  list. When the requested mode is PHOTO_ZOOM, the previous mode is not PHOTO_ZOOM and the
  list is not empty, the new index is the old one plus 1 modulo the length of the list (for
  the non-negative indices the application holds it is \<open>(index + 1) mod length\<close>); in every
  other case the index is unchanged. With an empty list only the mode changes.
\<close>

theorem handleModeChange_photo_index:
  "\<exists>s'. handleModeChange newMode s = Some s' \<and> mode s' = newMode \<and> photos s' = photos s
     \<and> (newMode = PHOTO_ZOOM \<and> mode s \<noteq> PHOTO_ZOOM \<and> photos s \<noteq> [] \<longrightarrow>
          (currentPhotoIndex s' - (currentPhotoIndex s + 1)) mod int (length (photos s)) = 0
          \<and> (0 \<le> currentPhotoIndex s \<longrightarrow>
               currentPhotoIndex s' = (currentPhotoIndex s + 1) mod int (length (photos s))))
     \<and> (\<not> (newMode = PHOTO_ZOOM \<and> mode s \<noteq> PHOTO_ZOOM \<and> photos s \<noteq> []) \<longrightarrow>
          currentPhotoIndex s' = currentPhotoIndex s)
     \<and> (photos s = [] \<longrightarrow> s' = s\<lparr>mode := newMode\<rparr>)"
proof (cases "newMode = PHOTO_ZOOM \<and> mode s \<noteq> PHOTO_ZOOM \<and> photos s \<noteq> []")
  case True
  then have len: "0 < int (length (photos s))" by simp
  then obtain r where r: "js_rem (currentPhotoIndex s + 1) (int (length (photos s))) = Some r"
    by (auto simp: js_rem_def)
  have cong: "(r - (currentPhotoIndex s + 1)) mod int (length (photos s)) = 0"
    using js_rem_congruent [OF len r] .
  have nonneg: "0 \<le> currentPhotoIndex s \<longrightarrow> r = (currentPhotoIndex s + 1) mod int (length (photos s))"
    using r len by (auto simp: js_rem_nonneg)
  have "handleModeChange newMode s = Some (s\<lparr>currentPhotoIndex := r, mode := newMode\<rparr>)"
    using True r by (simp add: handleModeChange_def Let_def)
  then show ?thesis using True cong nonneg by simp
next
  case False
  then have "handleModeChange newMode s = Some (s\<lparr>mode := newMode\<rparr>)"
    by (auto simp: handleModeChange_def Let_def)
  then show ?thesis using False by auto
qed

theorem handleModeChange_photo_index_witness:
  "PHOTO_ZOOM = PHOTO_ZOOM \<and> mode exampleApp \<noteq> PHOTO_ZOOM \<and> photos exampleApp \<noteq> []
   \<and> 0 \<le> currentPhotoIndex exampleApp
   \<and> (\<exists>s'. handleModeChange PHOTO_ZOOM exampleApp = Some s' \<and> currentPhotoIndex s' = 1
          \<and> photos s' ! nat (currentPhotoIndex s') = photoB \<and> mode s' = PHOTO_ZOOM)
   \<and> photos (exampleApp\<lparr>photos := []\<rparr>) = []
   \<and> handleModeChange PHOTO_ZOOM (exampleApp\<lparr>photos := []\<rparr>)
        = Some (exampleApp\<lparr>photos := [], mode := PHOTO_ZOOM\<rparr>)
   \<and> \<not> (SCATTER = PHOTO_ZOOM \<and> mode exampleApp \<noteq> PHOTO_ZOOM \<and> photos exampleApp \<noteq> [])
   \<and> (\<exists>s'. handleModeChange SCATTER exampleApp = Some s' \<and> currentPhotoIndex s' = 0)"
proof -
  have e: "mode exampleApp = TREE" "photos exampleApp = [photoA, photoB, photoC]"
    "currentPhotoIndex exampleApp = 0"
    by (simp_all add: exampleApp_def)
  show ?thesis
    using handleModeChange_photo_index [of PHOTO_ZOOM exampleApp]
      handleModeChange_photo_index [of PHOTO_ZOOM "exampleApp\<lparr>photos := []\<rparr>"]
      handleModeChange_photo_index [of SCATTER exampleApp]
    by (auto simp add: e)
qed

lemma findIndexFrom_absent:
  "(\<forall>x \<in> set xs. \<not> P x) \<Longrightarrow> findIndexFrom P xs k = - 1"
  by (induction xs arbitrary: k) auto

lemma findIndexFrom_present:
  assumes "\<exists>x \<in> set xs. P x" "0 \<le> k"
  shows "k \<le> findIndexFrom P xs k \<and> nat (findIndexFrom P xs k - k) < length xs
       \<and> P (xs ! nat (findIndexFrom P xs k - k))
       \<and> (\<forall>j < nat (findIndexFrom P xs k - k). \<not> P (xs ! j))"
  using assms
proof (induction xs arbitrary: k)
  case Nil
  then show ?case by simp
next
  case (Cons x xs)
  show ?case
  proof (cases "P x")
    case True
    then show ?thesis by simp
  next
    case False
    with Cons.prems have ex: "\<exists>x \<in> set xs. P x" by auto
    have k1: "0 \<le> k + 1" using Cons.prems by simp
    note ih = Cons.IH [OF ex k1]
    let ?r = "findIndexFrom P xs (k + 1)"
    have eq: "nat (?r - k) = Suc (nat (?r - (k + 1)))" using ih by linarith
    have "\<forall>j < nat (?r - k). \<not> P ((x # xs) ! j)"
    proof (intro allI impI)
      fix j assume "j < nat (?r - k)"
      then show "\<not> P ((x # xs) ! j)"
        using ih False eq by (cases j) auto
    qed
    then show ?thesis using ih False eq by simp
  qed
qed

lemma findIndex_present:
  assumes "\<exists>x \<in> set xs. P x"
  shows "0 \<le> findIndex P xs \<and> nat (findIndex P xs) < length xs
       \<and> P (xs ! nat (findIndex P xs))
       \<and> (\<forall>j < nat (findIndex P xs). \<not> P (xs ! j))"
  using findIndexFrom_present [OF assms, of 0] by (simp add: findIndex_def)

lemma findIndex_absent: "(\<forall>x \<in> set xs. \<not> P x) \<Longrightarrow> findIndex P xs = - 1"
  by (simp add: findIndex_def findIndexFrom_absent)

text \<open>
  Claim C9. A click on a photo whose id is in the list sets the mode to PHOTO_ZOOM and the
  index to the first position of that id, whatever the previous index and mode were (no
  advance by one); a click on an id that is not in the list changes nothing. The handler
  neither reads nor writes the controller state, so the debounce timer plays no part.
\<close>

theorem handlePhotoClick_sets_index_and_mode:
  "((\<exists>p \<in> set (photos s). id_photo p = i) \<longrightarrow>
      mode (handlePhotoClick i s) = PHOTO_ZOOM
      \<and> photos (handlePhotoClick i s) = photos s
      \<and> 0 \<le> currentPhotoIndex (handlePhotoClick i s)
      \<and> nat (currentPhotoIndex (handlePhotoClick i s)) < length (photos s)
      \<and> id_photo (photos s ! nat (currentPhotoIndex (handlePhotoClick i s))) = i
      \<and> (\<forall>j < nat (currentPhotoIndex (handlePhotoClick i s)). id_photo (photos s ! j) \<noteq> i)
      \<and> currentPhotoIndex (handlePhotoClick i (s\<lparr>currentPhotoIndex := k, mode := m\<rparr>))
          = currentPhotoIndex (handlePhotoClick i s))
   \<and> (\<not> (\<exists>p \<in> set (photos s). id_photo p = i) \<longrightarrow> handlePhotoClick i s = s)
   \<and> sysStep (PhotoClick i) (s, c) = Some (handlePhotoClick i s, c)"
proof (cases "\<exists>p \<in> set (photos s). id_photo p = i")
  case True
  note fi = findIndex_present [of "photos s" "\<lambda>p. id_photo p = i", OF True]
  then have ne: "findIndex (\<lambda>p. id_photo p = i) (photos s) \<noteq> - 1" by linarith
  show ?thesis using True fi ne by (simp add: handlePhotoClick_def Let_def)
next
  case False
  then have "findIndex (\<lambda>p. id_photo p = i) (photos s) = - 1"
    by (simp add: findIndex_absent)
  then show ?thesis using False by (simp add: handlePhotoClick_def Let_def)
qed

lemma handleDeletePhoto_upper:
  "currentPhotoIndex (handleDeletePhoto i s)
     \<le> max 0 (int (length (photos (handleDeletePhoto i s))) - 1)"
  by (auto simp add: handleDeletePhoto_def Let_def)

lemma handleDeletePhoto_lower:
  "0 \<le> currentPhotoIndex s \<Longrightarrow> 0 \<le> currentPhotoIndex (handleDeletePhoto i s)"
  by (simp add: handleDeletePhoto_def Let_def)

lemma handleModeChange_nonneg:
  assumes "0 \<le> currentPhotoIndex s" "handleModeChange m s = Some s'"
  shows "0 \<le> currentPhotoIndex s'"
  using assms
  by (auto simp: handleModeChange_def Let_def js_rem_nonneg split: if_splits)

lemma handlePhotoClick_nonneg:
  "0 \<le> currentPhotoIndex s \<Longrightarrow> 0 \<le> currentPhotoIndex (handlePhotoClick i s)"
proof (cases "\<exists>p \<in> set (photos s). id_photo p = i")
  case True
  assume "0 \<le> currentPhotoIndex s"
  note fi = findIndex_present [of "photos s" "\<lambda>p. id_photo p = i", OF True]
  then show ?thesis by (simp add: handlePhotoClick_def Let_def)
next
  case False
  assume "0 \<le> currentPhotoIndex s"
  moreover from False have "findIndex (\<lambda>p. id_photo p = i) (photos s) = - 1"
    by (simp add: findIndex_absent)
  ultimately show ?thesis by (simp add: handlePhotoClick_def Let_def)
qed

lemma sysStep_nonneg:
  assumes "0 \<le> currentPhotoIndex (fst st)" "sysStep e st = Some st'"
  shows "0 \<le> currentPhotoIndex (fst st')"
proof -
  obtain a c where st: "st = (a, c)" by (cases st)
  show ?thesis
  proof (cases e)
    case (FrameEv f)
    then show ?thesis using assms st
      by (auto split: prod.splits option.splits dest: handleModeChange_nonneg)
  next
    case (SetMode m)
    then show ?thesis using assms st by auto
  next
    case (PhotoUpload ps)
    then show ?thesis using assms st by (auto simp: handlePhotoUpload_def)
  next
    case (DeletePhoto i)
    then show ?thesis using assms st by (auto simp: handleDeletePhoto_lower)
  next
    case (PhotoClick i)
    then show ?thesis using assms st by (auto simp: handlePhotoClick_nonneg)
  qed
qed

lemma runEvents_nonneg:
  "0 \<le> currentPhotoIndex (fst st) \<Longrightarrow> runEvents es st = Some st' \<Longrightarrow>
     0 \<le> currentPhotoIndex (fst st')"
proof (induction es arbitrary: st)
  case Nil
  then show ?case by simp
next
  case (Cons e es)
  then show ?case
    by (auto split: option.splits dest: sysStep_nonneg)
qed

lemma sysStep_total: "\<exists>st'. sysStep e st = Some st'"
proof -
  obtain a c where st: "st = (a, c)" by (cases st)
  have hm: "\<And>m. \<exists>a'. handleModeChange m a = Some a'"
    by (simp add: handleModeChange_def js_rem_def Let_def)
  show ?thesis
  proof (cases e)
    case (FrameEv f)
    obtain r c' where rl: "renderLoop f (mode a) c = (r, c')" by (cases "renderLoop f (mode a) c")
    show ?thesis
    proof (cases r)
      case None
      then show ?thesis by (simp add: FrameEv st rl)
    next
      case (Some m)
      from hm [of m] obtain a' where "handleModeChange m a = Some a'" ..
      then show ?thesis by (simp add: FrameEv st rl Some)
    qed
  qed (simp_all add: st)
qed

lemma runEvents_total: "\<exists>st'. runEvents es st = Some st'"
proof (induction es arbitrary: st)
  case Nil
  then show ?case by simp
next
  case (Cons e es)
  obtain st1 where s1: "sysStep e st = Some st1" using sysStep_total by blast
  from Cons.IH [of st1] show ?case by (simp add: s1)
qed

lemma runEvents_append:
  "runEvents (es @ es') st =
     (case runEvents es st of None \<Rightarrow> None | Some st' \<Rightarrow> runEvents es' st')"
  by (induction es arbitrary: st) (auto split: option.splits)

text \<open>
  Claim C10. After a deletion the index is at most \<open>max 0 (length - 1)\<close> of the remaining
  list, and it is non-negative when it was so before. Every run of events from the initial
  state completes with a non-negative index, so after a deletion at the end of any run the
  index lies between 0 and \<open>max 0 (length - 1)\<close>.
\<close>

theorem handleDeletePhoto_index_in_range:
  "currentPhotoIndex (handleDeletePhoto i s)
     \<le> max 0 (int (length (photos (handleDeletePhoto i s))) - 1)
   \<and> (0 \<le> currentPhotoIndex s \<longrightarrow> 0 \<le> currentPhotoIndex (handleDeletePhoto i s))
   \<and> (\<exists>a c. runEvents es (initialApp, initialController) = Some (a, c)
        \<and> 0 \<le> currentPhotoIndex a
        \<and> (\<exists>a'. runEvents (es @ [DeletePhoto j]) (initialApp, initialController) = Some (a', c)
              \<and> 0 \<le> currentPhotoIndex a'
              \<and> currentPhotoIndex a' \<le> max 0 (int (length (photos a')) - 1)))"
proof (intro conjI)
  show "currentPhotoIndex (handleDeletePhoto i s)
     \<le> max 0 (int (length (photos (handleDeletePhoto i s))) - 1)"
    by (rule handleDeletePhoto_upper)
  show "0 \<le> currentPhotoIndex s \<longrightarrow> 0 \<le> currentPhotoIndex (handleDeletePhoto i s)"
    by (simp add: handleDeletePhoto_lower)
  obtain a c where run: "runEvents es (initialApp, initialController) = Some (a, c)"
    using runEvents_total [of es "(initialApp, initialController)"] by auto
  have "0 \<le> currentPhotoIndex (fst (initialApp, initialController))"
    by (simp add: initialApp_def)
  from runEvents_nonneg [OF this run] have nonneg: "0 \<le> currentPhotoIndex a" by simp
  have del: "runEvents (es @ [DeletePhoto j]) (initialApp, initialController)
               = Some (handleDeletePhoto j a, c)"
    by (simp add: runEvents_append run)
  show "\<exists>a c. runEvents es (initialApp, initialController) = Some (a, c)
        \<and> 0 \<le> currentPhotoIndex a
        \<and> (\<exists>a'. runEvents (es @ [DeletePhoto j]) (initialApp, initialController) = Some (a', c)
              \<and> 0 \<le> currentPhotoIndex a'
              \<and> currentPhotoIndex a' \<le> max 0 (int (length (photos a')) - 1))"
    using run nonneg del handleDeletePhoto_upper [of j a] handleDeletePhoto_lower [of a j]
    by simp
qed

lemma handlePhotoClick_example:
  "handlePhotoClick ''B'' exampleApp = exampleApp\<lparr>currentPhotoIndex := 1, mode := PHOTO_ZOOM\<rparr>"
  "handlePhotoClick ''Z'' exampleApp = exampleApp"
  by (simp_all add: handlePhotoClick_def findIndex_def exampleApp_def photoA_def photoB_def
      photoC_def Let_def)

theorem handlePhotoClick_sets_index_and_mode_witness:
  "(\<exists>p \<in> set (photos exampleApp). id_photo p = ''B'')
   \<and> mode (handlePhotoClick ''B'' exampleApp) = PHOTO_ZOOM
   \<and> currentPhotoIndex (handlePhotoClick ''B'' exampleApp) = 1
   \<and> photos exampleApp ! 1 = photoB
   \<and> \<not> (\<exists>p \<in> set (photos exampleApp). id_photo p = ''Z'')
   \<and> handlePhotoClick ''Z'' exampleApp = exampleApp"
proof -
  have e: "photos exampleApp = [photoA, photoB, photoC]"
    by (simp add: exampleApp_def)
  have ids: "id_photo photoA = ''A''" "id_photo photoB = ''B''" "id_photo photoC = ''C''"
    by (simp_all add: photoA_def photoB_def photoC_def)
  show ?thesis
    using handlePhotoClick_sets_index_and_mode [where s = exampleApp and i = "''B''" and k = 0
        and m = TREE and c = initialController]
      handlePhotoClick_sets_index_and_mode [where s = exampleApp and i = "''Z''" and k = 0
        and m = TREE and c = initialController]
    by (simp add: e ids handlePhotoClick_example)
qed

lemma handlePhotoClick_last_example:
  "handlePhotoClick ''5'' initialApp = lastPhotoFocused"
  by (simp add: handlePhotoClick_def findIndex_def initialApp_def DEFAULT_PHOTOS_def
      lastPhotoFocused_def Let_def)

lemma handleDeletePhoto_example:
  "handleDeletePhoto ''5'' lastPhotoFocused
     = lastPhotoFocused\<lparr>photos := butlast DEFAULT_PHOTOS, currentPhotoIndex := 3\<rparr>"
  by (simp add: handleDeletePhoto_def lastPhotoFocused_def initialApp_def DEFAULT_PHOTOS_def Let_def)

theorem handleDeletePhoto_index_in_range_witness:
  "0 \<le> currentPhotoIndex lastPhotoFocused
   \<and> currentPhotoIndex (handleDeletePhoto ''5'' lastPhotoFocused) = 3
   \<and> length (photos (handleDeletePhoto ''5'' lastPhotoFocused)) = 4
   \<and> (\<exists>a'. runEvents ([PhotoClick ''5''] @ [DeletePhoto ''5'']) (initialApp, initialController)
              = Some (a', initialController)
           \<and> 0 \<le> currentPhotoIndex a'
           \<and> currentPhotoIndex a' \<le> max 0 (int (length (photos a')) - 1))"
proof -
  have idx: "currentPhotoIndex lastPhotoFocused = 4"
    by (simp add: lastPhotoFocused_def)
  have len: "length DEFAULT_PHOTOS = 5"
    by (simp add: DEFAULT_PHOTOS_def)
  show ?thesis
    using handleDeletePhoto_index_in_range [of "''5''" lastPhotoFocused "[PhotoClick ''5'']" "''5''"]
    by (simp add: handlePhotoClick_last_example handleDeletePhoto_example idx len)
qed

section \<open>Double-precision arithmetic: properties\<close>

lemma roundHalfEven_of_int: "roundHalfEven (of_int n) = n"
  by (simp add: roundHalfEven_def)

lemma roundHalfEven_bounds: "\<lfloor>q\<rfloor> \<le> roundHalfEven q \<and> roundHalfEven q \<le> \<lfloor>q\<rfloor> + 1"
  by (simp add: roundHalfEven_def Let_def)

lemma roundHalfEven_ge_int:
  assumes "of_int n \<le> q"
  shows "n \<le> roundHalfEven q"
proof -
  from assms have "n \<le> \<lfloor>q\<rfloor>" by (simp add: le_floor_iff)
  then show ?thesis using roundHalfEven_bounds [of q] by linarith
qed

lemma roundHalfEven_le_int:
  assumes "q \<le> of_int n"
  shows "roundHalfEven q \<le> n"
proof (cases "q = of_int n")
  case True
  then show ?thesis by (simp add: roundHalfEven_of_int)
next
  case False
  with assms have "q < of_int n" by simp
  then have "\<lfloor>q\<rfloor> < n" by (simp add: floor_less_iff)
  then show ?thesis using roundHalfEven_bounds [of q] by linarith
qed

lemma roundHalfEven_mono:
  assumes "q \<le> q'"
  shows "roundHalfEven q \<le> roundHalfEven q'"
proof (cases "\<lfloor>q\<rfloor> = \<lfloor>q'\<rfloor>")
  case True
  have "q - of_int \<lfloor>q\<rfloor> \<le> q' - of_int \<lfloor>q'\<rfloor>" using assms True by simp
  then show ?thesis
    unfolding roundHalfEven_def Let_def True [symmetric]
    by (auto simp: True)
next
  case False
  with assms have "\<lfloor>q\<rfloor> < \<lfloor>q'\<rfloor>"
    using floor_mono [OF assms] by linarith
  then show ?thesis
    using roundHalfEven_bounds [of q] roundHalfEven_bounds [of q'] by linarith
qed

lemma roundHalfEven_minus: "roundHalfEven (- q) = - roundHalfEven q"
proof (cases "q = of_int \<lfloor>q\<rfloor>")
  case True
  then obtain n where "q = of_int n" ..
  then have "- q = of_int (- n)" by simp
  then show ?thesis using \<open>q = of_int n\<close> by (simp only: roundHalfEven_of_int)
next
  case False
  have "\<lceil>q\<rceil> = \<lfloor>q\<rfloor> + 1"
    using False by (simp add: ceiling_altdef)
  then have fl: "\<lfloor>- q\<rfloor> = - \<lfloor>q\<rfloor> - 1"
    by (simp add: ceiling_def)
  show ?thesis
    unfolding roundHalfEven_def Let_def fl
    by (auto simp: algebra_simps)
qed

lemma fl64_zero: "fl64 0 = 0"
  by (simp add: fl64_def)

lemma fl64_minus: "fl64 (- x) = - fl64 x"
  by (simp add: fl64_def Let_def roundHalfEven_minus)

lemma floor_log2_bounds:
  assumes "0 < x"
  shows "2 powr (of_int \<lfloor>log 2 x\<rfloor>) \<le> x" and "x < 2 powr (of_int \<lfloor>log 2 x\<rfloor> + 1)"
proof -
  have "of_int \<lfloor>log 2 x\<rfloor> \<le> log 2 x" by simp
  then have "2 powr (of_int \<lfloor>log 2 x\<rfloor>) \<le> 2 powr (log 2 x)" by simp
  then show "2 powr (of_int \<lfloor>log 2 x\<rfloor>) \<le> x" using assms by simp
  have "log 2 x < of_int \<lfloor>log 2 x\<rfloor> + 1" by linarith
  then have "2 powr (log 2 x) < 2 powr (of_int \<lfloor>log 2 x\<rfloor> + 1)" by simp
  then show "x < 2 powr (of_int \<lfloor>log 2 x\<rfloor> + 1)" using assms by simp
qed

lemma floor_log2_eq:
  assumes "0 < x" "2 powr (of_int k) \<le> x" "x < 2 powr (of_int k + 1)"
  shows "\<lfloor>log 2 x\<rfloor> = k"
proof (rule floor_unique)
  have "log 2 (2 powr (of_int k)) \<le> log 2 x"
    using assms by (subst log_le_cancel_iff) simp_all
  then show "of_int k \<le> log 2 x" by simp
  have "log 2 x < log 2 (2 powr (of_int k + 1))"
    using assms by (subst log_less_cancel_iff) simp_all
  then show "log 2 x < of_int k + 1" by simp
qed

text \<open>The scaled significand of a positive number lies in \<open>[2^52, 2^53)\<close>.\<close>

lemma significand_bounds:
  assumes "0 < x"
  shows "2 ^ 52 \<le> x / 2 powr (of_int (\<lfloor>log 2 x\<rfloor> - 52))"
    and "x / 2 powr (of_int (\<lfloor>log 2 x\<rfloor> - 52)) < 2 ^ 53"
proof -
  let ?k = "\<lfloor>log 2 x\<rfloor>"
  have split: "(2::real) powr (of_int (?k - 52)) = 2 powr (of_int ?k) / 2 ^ 52"
    by (simp add: powr_diff)
  have pos: "0 < (2::real) powr (of_int ?k)" by simp
  have q: "x / 2 powr (of_int (?k - 52)) = 2 ^ 52 * (x / 2 powr (of_int ?k))"
    unfolding split by simp
  define t where "t = x / 2 powr (of_int ?k)"
  have t1: "1 \<le> t"
    unfolding t_def using floor_log2_bounds(1) [OF assms] pos by (simp add: le_divide_eq)
  have "x < 2 * (2::real) powr (of_int ?k)"
    using floor_log2_bounds(2) [OF assms] by (simp add: powr_add)
  then have t2: "t < 2"
    unfolding t_def using pos by (simp add: divide_less_eq)
  have "(2::real) ^ 52 * 1 \<le> 2 ^ 52 * t"
    using t1 by (intro mult_left_mono) simp_all
  then show "2 ^ 52 \<le> x / 2 powr (of_int (?k - 52))"
    unfolding q t_def [symmetric] by simp
  have "(2::real) ^ 52 * t < 2 ^ 52 * 2"
    using t2 by (intro mult_strict_left_mono) simp_all
  then show "x / 2 powr (of_int (?k - 52)) < 2 ^ 53"
    unfolding q t_def [symmetric] by simp
qed

lemma fl64_pos_unfold:
  assumes "0 < x"
  shows "fl64 x = of_int (roundHalfEven (x / 2 powr (of_int (\<lfloor>log 2 x\<rfloor> - 52))))
                  * 2 powr (of_int (\<lfloor>log 2 x\<rfloor> - 52))"
  using assms by (simp add: fl64_def Let_def)

lemma fl64_range:
  assumes "0 < x"
  shows "2 powr (of_int \<lfloor>log 2 x\<rfloor>) \<le> fl64 x" and "fl64 x \<le> 2 powr (of_int \<lfloor>log 2 x\<rfloor> + 1)"
proof -
  let ?k = "\<lfloor>log 2 x\<rfloor>"
  let ?s = "(2::real) powr (of_int (?k - 52))"
  let ?q = "x / ?s"
  have s_pos: "0 < ?s" by simp
  have lo: "(2::int) ^ 52 \<le> roundHalfEven ?q"
    by (rule roundHalfEven_ge_int) (use significand_bounds(1) [OF assms] in simp)
  have hi: "roundHalfEven ?q \<le> (2::int) ^ 53"
    by (rule roundHalfEven_le_int) (use significand_bounds(2) [OF assms] in simp)
  have klo: "(2::real) powr (of_int ?k) = 2 ^ 52 * ?s"
    by (simp add: powr_diff)
  have khi: "(2::real) powr (of_int ?k + 1) = 2 ^ 53 * ?s"
    by (simp add: powr_diff powr_add)
  have "of_int ((2::int) ^ 52) \<le> (of_int (roundHalfEven ?q) :: real)"
    using lo by (simp only: of_int_le_iff)
  then have "2 ^ 52 * ?s \<le> of_int (roundHalfEven ?q) * ?s"
    using s_pos by (intro mult_right_mono) simp_all
  then show "2 powr (of_int ?k) \<le> fl64 x"
    unfolding fl64_pos_unfold [OF assms] klo .
  have "(of_int (roundHalfEven ?q) :: real) \<le> of_int ((2::int) ^ 53)"
    using hi by (simp only: of_int_le_iff)
  then have "of_int (roundHalfEven ?q) * ?s \<le> 2 ^ 53 * ?s"
    using s_pos by (intro mult_right_mono) simp_all
  then show "fl64 x \<le> 2 powr (of_int ?k + 1)"
    unfolding fl64_pos_unfold [OF assms] khi .
qed

lemma fl64_pos: "0 < x \<Longrightarrow> 0 < fl64 x"
  using fl64_range(1) [of x] by (smt (verit) powr_gt_zero)

lemma fl64_neg: "x < 0 \<Longrightarrow> fl64 x < 0"
  using fl64_pos [of "- x"] by (simp add: fl64_minus)

lemma fl64_mono_pos:
  assumes "0 < x" "x \<le> y"
  shows "fl64 x \<le> fl64 y"
proof -
  have ypos: "0 < y" using assms by linarith
  have kle: "\<lfloor>log 2 x\<rfloor> \<le> \<lfloor>log 2 y\<rfloor>"
    using assms by (intro floor_mono) (simp add: log_le_cancel_iff ypos)
  show ?thesis
  proof (cases "\<lfloor>log 2 x\<rfloor> = \<lfloor>log 2 y\<rfloor>")
    case True
    let ?s = "(2::real) powr (of_int (\<lfloor>log 2 y\<rfloor> - 52))"
    have "x / ?s \<le> y / ?s" using assms by (simp add: divide_right_mono)
    then have "roundHalfEven (x / ?s) \<le> roundHalfEven (y / ?s)" by (rule roundHalfEven_mono)
    then have "of_int (roundHalfEven (x / ?s)) * ?s \<le> of_int (roundHalfEven (y / ?s)) * ?s"
      by (intro mult_right_mono) simp_all
    then show ?thesis
      unfolding fl64_pos_unfold [OF assms(1)] fl64_pos_unfold [OF ypos] True .
  next
    case False
    with kle have "\<lfloor>log 2 x\<rfloor> + 1 \<le> \<lfloor>log 2 y\<rfloor>" by linarith
    then have "(of_int \<lfloor>log 2 x\<rfloor> + 1 :: real) \<le> of_int \<lfloor>log 2 y\<rfloor>"
      by (metis of_int_1 of_int_add of_int_le_iff)
    then have "(2::real) powr (of_int \<lfloor>log 2 x\<rfloor> + 1) \<le> 2 powr (of_int \<lfloor>log 2 y\<rfloor>)"
      by simp
    then show ?thesis
      using fl64_range(2) [OF assms(1)] fl64_range(1) [OF ypos] by linarith
  qed
qed

lemma fl64_mono:
  assumes "x \<le> y"
  shows "fl64 x \<le> fl64 y"
proof -
  consider "0 < x" | "x = 0" | "x < 0" "0 \<le> y" | "x < 0" "y < 0" by linarith
  then show ?thesis
  proof cases
    case 1
    then show ?thesis using assms by (rule fl64_mono_pos)
  next
    case 2
    then show ?thesis
      using assms fl64_pos [of y] by (cases "y = 0") (simp_all add: fl64_zero less_eq_real_def)
  next
    case 3
    then show ?thesis
      using fl64_neg [of x] fl64_pos [of y] by (cases "y = 0") (simp_all add: fl64_zero less_eq_real_def)
  next
    case 4
    then have "fl64 (- y) \<le> fl64 (- x)" using assms by (intro fl64_mono_pos) simp_all
    then show ?thesis by (simp add: fl64_minus)
  qed
qed

text \<open>Evaluation at a positive number whose binade is known.\<close>

lemma fl64_eval:
  assumes "2 ^ 52 \<le> x * 2 ^ j" "x * 2 ^ j < 2 ^ 53"
  shows "fl64 x = of_int (roundHalfEven (x * 2 ^ j)) / 2 ^ j"
proof -
  have xpos: "0 < x"
  proof (rule ccontr)
    assume "\<not> 0 < x"
    then have "x * 2 ^ j \<le> 0" by (simp add: mult_le_0_iff)
    with assms(1) show False by (smt (verit) zero_less_power)
  qed
  have pj: "(2::real) powr (of_nat j) = 2 ^ j"
    by (simp add: powr_realpow)
  have p: "(2::real) powr (of_int (52 - int j)) = 2 ^ 52 / 2 ^ j"
    by (simp add: powr_diff pj)
  have p1: "(2::real) powr (of_int (52 - int j) + 1) = 2 ^ 53 / 2 ^ j"
    by (simp add: powr_diff powr_add pj)
  have k: "\<lfloor>log 2 x\<rfloor> = 52 - int j"
  proof (rule floor_log2_eq [OF xpos])
    show "2 powr (of_int (52 - int j)) \<le> x"
      unfolding p using assms(1) by (simp add: divide_le_eq)
    show "x < 2 powr (of_int (52 - int j) + 1)"
      unfolding p1 using assms(2) by (simp add: less_divide_eq)
  qed
  have e: "(2::real) powr (of_int (52 - int j - 52)) = 1 / 2 ^ j"
    by (simp add: powr_minus pj divide_inverse)
  show ?thesis
    unfolding fl64_pos_unfold [OF xpos] k e by simp
qed












section \<open>Scene choreographer: properties\<close>

subsection \<open>The spiral construction\<close>
























subsection \<open>Active and inactive elements\<close>

lemma upt_loop_length:
  "length (fold (\<lambda>i xs. xs[i := h i (xs ! i)]) [0..<n] xs) = length xs"
  by (induction n) simp_all

lemma upt_loop_nth:
  "j < length xs \<Longrightarrow>
     fold (\<lambda>i xs. xs[i := h i (xs ! i)]) [0..<n] xs ! j = (if j < n then h j (xs ! j) else xs ! j)"
proof (induction n)
  case 0
  then show ?case by simp
next
  case (Suc n)
  let ?F = "fold (\<lambda>i xs. xs[i := h i (xs ! i)]) [0..<n] xs"
  have len: "length ?F = length xs" by (rule upt_loop_length)
  show ?case
  proof (cases "j = n")
    case True
    with Suc show ?thesis by (simp add: len)
  next
    case False
    with Suc show ?thesis by (simp add: len less_Suc_eq)
  qed
qed

lemma stardustUpdate_count:
  "snd (stardustUpdate m time delta density d) = \<lfloor>fl64 (STARDUST_COUNT * density)\<rfloor>"
  by (simp add: stardustUpdate_def Let_def)

lemma stardustUpdate_positions:
  "positions (fst (stardustUpdate m time delta density d)) =
     fold (\<lambda>i pos. pos[i := stardustElement (time < INTRO_DURATION) m time (delta * 1.5)
                               (targetTree d ! i) (targetScatter d ! i) (pos ! i)])
          [0..<nat \<lfloor>fl64 (STARDUST_COUNT * density)\<rfloor>] (positions d)"
  by (simp add: stardustUpdate_def Let_def)

lemma stardustUpdate_length:
  "length (positions (fst (stardustUpdate m time delta density d))) = length (positions d)"
  unfolding stardustUpdate_positions
  by (rule upt_loop_length
      [where h = "\<lambda>i. stardustElement (time < INTRO_DURATION) m time (delta * 1.5)
                   (targetTree d ! i) (targetScatter d ! i)"])

lemma stardustUpdate_nth:
  assumes "i < length (positions d)"
  shows "positions (fst (stardustUpdate m time delta density d)) ! i =
           (if int i < \<lfloor>fl64 (STARDUST_COUNT * density)\<rfloor>
            then stardustElement (time < INTRO_DURATION) m time (delta * 1.5)
                   (targetTree d ! i) (targetScatter d ! i) (positions d ! i)
            else positions d ! i)"
proof -
  have cmp: "(i < nat \<lfloor>fl64 (STARDUST_COUNT * density)\<rfloor>) = (int i < \<lfloor>fl64 (STARDUST_COUNT * density)\<rfloor>)"
    by linarith
  show ?thesis
    unfolding stardustUpdate_positions
    using upt_loop_nth [OF assms,
        where h = "\<lambda>i. stardustElement (time < INTRO_DURATION) m time (delta * 1.5)
                   (targetTree d ! i) (targetScatter d ! i)"
          and n = "nat \<lfloor>fl64 (STARDUST_COUNT * density)\<rfloor>"]
    by (simp only: cmp)
qed

lemma bulbsUpdate_Some:
  assumes "nat \<lfloor>fl64 (BULB_COUNT * density)\<rfloor> \<le> length bulbData"
  shows "bulbsUpdate m time delta density bulbData =
           Some (fold (\<lambda>i bs. bs[i := bulbElement (time < INTRO_DURATION) m time (delta * 1.5) (bs ! i)])
                      [0..<nat \<lfloor>fl64 (BULB_COUNT * density)\<rfloor>] bulbData,
                 \<lfloor>fl64 (BULB_COUNT * density)\<rfloor>)"
  using assms by (simp add: bulbsUpdate_def Let_def)

lemma bulbsUpdate_nth:
  assumes "bulbsUpdate m time delta density bulbData = Some (bs', n)" "i < length bulbData"
  shows "n = \<lfloor>fl64 (BULB_COUNT * density)\<rfloor> \<and> length bs' = length bulbData
       \<and> bs' ! i = (if int i < n then bulbElement (time < INTRO_DURATION) m time (delta * 1.5) (bulbData ! i)
                    else bulbData ! i)"
proof -
  let ?h = "\<lambda>i::nat. bulbElement (time < INTRO_DURATION) m time (delta * 1.5)"
  let ?N = "nat \<lfloor>fl64 (BULB_COUNT * density)\<rfloor>"
  have le: "?N \<le> length bulbData"
    using assms(1) by (simp add: bulbsUpdate_def Let_def split: if_splits)
  have cmp: "(i < ?N) = (int i < \<lfloor>fl64 (BULB_COUNT * density)\<rfloor>)"
    by linarith
  from assms(1) have bs': "bs' = fold (\<lambda>i bs. bs[i := ?h i (bs ! i)]) [0..<?N] bulbData"
    and n: "n = \<lfloor>fl64 (BULB_COUNT * density)\<rfloor>"
    unfolding bulbsUpdate_Some [OF le] by auto
  have len: "length bs' = length bulbData"
    unfolding bs' by (rule upt_loop_length [where h = ?h])
  have nth: "bs' ! i = (if i < ?N then ?h i (bulbData ! i) else bulbData ! i)"
    unfolding bs' by (rule upt_loop_nth [OF assms(2), where h = ?h])
  show ?thesis
    using n len nth cmp by (simp only: simp_thms)
qed

lemma distanceTo_gt_10:
  "(10 < distanceTo a b) =
     (100 < (v_x a - v_x b)\<^sup>2 + (v_y a - v_y b)\<^sup>2 + (v_z a - v_z b)\<^sup>2)"
proof -
  have "sqrt 100 = 10"
    using real_sqrt_abs [of 10] by simp
  then have "(10 < distanceTo a b) =
      (sqrt 100 < sqrt ((v_x a - v_x b)\<^sup>2 + (v_y a - v_y b)\<^sup>2 + (v_z a - v_z b)\<^sup>2))"
    by (simp add: distanceTo_def)
  then show ?thesis by (simp only: real_sqrt_less_iff)
qed

text \<open>
  Claim C6, as the code has it. One frame rewrites the stored position of exactly the
  elements below the active count (the floor of the product pool size times density, as
  the program computes it), each by one step of the intro or of the snap / interpolation;
  an element at or beyond the active count keeps the stored position it had before the
  frame. This holds for the stardust points and for the bulbs.
\<close>

theorem inactive_elements_keep_stored_position:
  "(\<forall>i. \<lfloor>fl64 (STARDUST_COUNT * density)\<rfloor> \<le> int i \<and> i < length (positions d) \<longrightarrow>
        positions (fst (stardustUpdate m time delta density d)) ! i = positions d ! i)
   \<and> (\<forall>i. int i < \<lfloor>fl64 (STARDUST_COUNT * density)\<rfloor> \<and> i < length (positions d) \<longrightarrow>
        positions (fst (stardustUpdate m time delta density d)) ! i =
          stardustElement (time < INTRO_DURATION) m time (delta * 1.5)
            (targetTree d ! i) (targetScatter d ! i) (positions d ! i))
   \<and> (\<forall>bs' n i. bulbsUpdate m time delta density bulbData = Some (bs', n)
         \<and> n \<le> int i \<and> i < length bulbData \<longrightarrow> bs' ! i = bulbData ! i)
   \<and> (\<forall>bs' n i. bulbsUpdate m time delta density bulbData = Some (bs', n)
         \<and> int i < n \<and> i < length bulbData \<longrightarrow>
         bs' ! i = bulbElement (time < INTRO_DURATION) m time (delta * 1.5) (bulbData ! i))"
proof (intro conjI allI impI)
  fix i
  assume "\<lfloor>fl64 (STARDUST_COUNT * density)\<rfloor> \<le> int i \<and> i < length (positions d)"
  then show "positions (fst (stardustUpdate m time delta density d)) ! i = positions d ! i"
    by (simp add: stardustUpdate_nth)
next
  fix i
  assume "int i < \<lfloor>fl64 (STARDUST_COUNT * density)\<rfloor> \<and> i < length (positions d)"
  then show "positions (fst (stardustUpdate m time delta density d)) ! i =
          stardustElement (time < INTRO_DURATION) m time (delta * 1.5)
            (targetTree d ! i) (targetScatter d ! i) (positions d ! i)"
    by (simp add: stardustUpdate_nth)
next
  fix bs' n i
  assume h: "bulbsUpdate m time delta density bulbData = Some (bs', n)
         \<and> n \<le> int i \<and> i < length bulbData"
  then show "bs' ! i = bulbData ! i"
    using bulbsUpdate_nth [of m time delta density bulbData bs' n i] by simp
next
  fix bs' n i
  assume h: "bulbsUpdate m time delta density bulbData = Some (bs', n)
         \<and> int i < n \<and> i < length bulbData"
  then show "bs' ! i = bulbElement (time < INTRO_DURATION) m time (delta * 1.5) (bulbData ! i)"
    using bulbsUpdate_nth [of m time delta density bulbData bs' n i] by simp
qed

lemma exampleStardust_nth:
  "length (positions exampleStardust) = 12000"
  "positions exampleStardust ! 6000 = Vec3 0 (- 20) 0"
  "targetTree exampleStardust ! 6000 = Vec3 0 0 0"
  "targetScatter exampleStardust ! 6000 = Vec3 1 2 3"
  "positions exampleStardust ! 5999 = Vec3 0 (- 20) 0"
  "targetTree exampleStardust ! 5999 = Vec3 0 0 0"
  "targetScatter exampleStardust ! 5999 = Vec3 1 2 3"
  by (simp_all add: exampleStardust_def)

lemma stardust_half_density: "\<lfloor>fl64 (STARDUST_COUNT * (1 / 2))\<rfloor> = 6000"
proof -
  have "fl64 (12000 * (1 / 2)) = 6000"
    by (subst fl64_eval [where j = 40]) (simp_all add: roundHalfEven_def)
  then show ?thesis
    unfolding STARDUST_COUNT_def by simp
qed

lemma stardustElement_example:
  "stardustElement (5 < INTRO_DURATION) SCATTER 5 (1 / 60 * 1.5) (Vec3 0 0 0) (Vec3 1 2 3)
     (Vec3 0 (- 20) 0) = Vec3 1 2 3"
  by (simp add: stardustElement_def stardustMove_def stardustTarget_def INTRO_DURATION_def)

text \<open>
  At density 1/2 the point 6000 is the first inactive one. After a frame in SCATTER mode it
  is still at its old position, not where a simulation step would have put it, while its
  active neighbour 5999 has been moved to its target.
\<close>

theorem inactive_elements_simulated_counterexample:
  "snd (stardustUpdate SCATTER 5 (1 / 60) (1 / 2) exampleStardust) = 6000
   \<and> positions (fst (stardustUpdate SCATTER 5 (1 / 60) (1 / 2) exampleStardust)) ! 6000
       = positions exampleStardust ! 6000
   \<and> positions (fst (stardustUpdate SCATTER 5 (1 / 60) (1 / 2) exampleStardust)) ! 6000
       \<noteq> stardustElement (5 < INTRO_DURATION) SCATTER 5 (1 / 60 * 1.5)
            (targetTree exampleStardust ! 6000) (targetScatter exampleStardust ! 6000)
            (positions exampleStardust ! 6000)
   \<and> positions (fst (stardustUpdate SCATTER 5 (1 / 60) (1 / 2) exampleStardust)) ! 5999
       = targetScatter exampleStardust ! 5999"
proof -
  have a: "positions (fst (stardustUpdate SCATTER 5 (1 / 60) (1 / 2) exampleStardust)) ! 6000
             = Vec3 0 (- 20) 0"
    using stardustUpdate_nth [of 6000 exampleStardust SCATTER 5 "1 / 60" "1 / 2"]
    unfolding stardust_half_density
    by (simp add: exampleStardust_nth)
  have b: "positions (fst (stardustUpdate SCATTER 5 (1 / 60) (1 / 2) exampleStardust)) ! 5999
             = Vec3 1 2 3"
    using stardustUpdate_nth [of 5999 exampleStardust SCATTER 5 "1 / 60" "1 / 2"]
    unfolding stardust_half_density exampleStardust_nth stardustElement_example
    by simp
  have c: "snd (stardustUpdate SCATTER 5 (1 / 60) (1 / 2) exampleStardust) = 6000"
    unfolding stardustUpdate_count by (rule stardust_half_density)
  show ?thesis
    unfolding a b c exampleStardust_nth stardustElement_example by simp
qed

lemma bulbsUpdate_example:
  "bulbsUpdate SCATTER 5 (1 / 60) (1 / 256) [exampleBulb, exampleBulb]
     = Some ([exampleBulb\<lparr>currentPos := Vec3 0 0 (1 / 8)\<rparr>, exampleBulb], 1)"
proof -
  have be: "bulbElement (5 < INTRO_DURATION) SCATTER 5 (1 / 40) exampleBulb
              = exampleBulb\<lparr>currentPos := Vec3 0 0 (1 / 8)\<rparr>"
    by (simp add: bulbElement_def bulbMove_def distanceTo_gt_10 lerp_def exampleBulb_def
        INTRO_DURATION_def)
  have p: "fl64 (300 * (1 / 256)) = 75 / 64"
    by (subst fl64_eval [where j = 52]) (simp_all add: roundHalfEven_def)
  have "\<lfloor>75 / 64 :: real\<rfloor> = 1"
    by simp
  then have n1: "\<lfloor>fl64 (BULB_COUNT * (1 / 256))\<rfloor> = 1"
    unfolding BULB_COUNT_def p .
  show ?thesis
    unfolding bulbsUpdate_def Let_def n1 by (simp add: be)
qed

theorem inactive_elements_keep_stored_position_witness:
  "\<lfloor>fl64 (STARDUST_COUNT * (1 / 2))\<rfloor> \<le> int 6000 \<and> 6000 < length (positions exampleStardust)
   \<and> positions (fst (stardustUpdate SCATTER 5 (1 / 60) (1 / 2) exampleStardust)) ! 6000
       = Vec3 0 (- 20) 0
   \<and> int 5999 < \<lfloor>fl64 (STARDUST_COUNT * (1 / 2))\<rfloor> \<and> 5999 < length (positions exampleStardust)
   \<and> positions (fst (stardustUpdate SCATTER 5 (1 / 60) (1 / 2) exampleStardust)) ! 5999
       = Vec3 1 2 3
   \<and> bulbsUpdate SCATTER 5 (1 / 60) (1 / 256) [exampleBulb, exampleBulb]
       = Some ([exampleBulb\<lparr>currentPos := Vec3 0 0 (1 / 8)\<rparr>, exampleBulb], 1)
   \<and> (1::int) \<le> int 1 \<and> 1 < length [exampleBulb, exampleBulb]
   \<and> [exampleBulb\<lparr>currentPos := Vec3 0 0 (1 / 8)\<rparr>, exampleBulb] ! 1 = exampleBulb"
proof -
  note t = inactive_elements_keep_stored_position [where density = "1 / 2" and d = exampleStardust
        and m = SCATTER and time = 5 and delta = "1 / 60" and bulbData = "[]"]
  note u = inactive_elements_keep_stored_position [where density = "1 / 256" and d = exampleStardust
        and m = SCATTER and time = 5 and delta = "1 / 60" and bulbData = "[exampleBulb, exampleBulb]"]
  have h1: "\<lfloor>fl64 (STARDUST_COUNT * (1 / 2))\<rfloor> \<le> int 6000 \<and> 6000 < length (positions exampleStardust)"
    unfolding stardust_half_density exampleStardust_nth by simp
  have h2: "int 5999 < \<lfloor>fl64 (STARDUST_COUNT * (1 / 2))\<rfloor> \<and> 5999 < length (positions exampleStardust)"
    unfolding stardust_half_density exampleStardust_nth by simp
  have h3: "bulbsUpdate SCATTER 5 (1 / 60) (1 / 256) [exampleBulb, exampleBulb]
       = Some ([exampleBulb\<lparr>currentPos := Vec3 0 0 (1 / 8)\<rparr>, exampleBulb], 1)
     \<and> (1::int) \<le> int 1 \<and> 1 < length [exampleBulb, exampleBulb]"
    by (simp add: bulbsUpdate_example)
  have c1: "positions (fst (stardustUpdate SCATTER 5 (1 / 60) (1 / 2) exampleStardust)) ! 6000
       = Vec3 0 (- 20) 0"
    using t [THEN conjunct1, rule_format, OF h1] by (simp only: exampleStardust_nth)
  have c2: "positions (fst (stardustUpdate SCATTER 5 (1 / 60) (1 / 2) exampleStardust)) ! 5999
       = Vec3 1 2 3"
    using t [THEN conjunct2, THEN conjunct1, rule_format, OF h2]
    by (simp only: exampleStardust_nth stardustElement_example)
  have c3: "[exampleBulb\<lparr>currentPos := Vec3 0 0 (1 / 8)\<rparr>, exampleBulb] ! 1 = exampleBulb"
    using u [THEN conjunct2, THEN conjunct2, THEN conjunct1, rule_format, OF h3] by simp
  show ?thesis
    using h1 h2 h3 c1 c2 c3 by (simp only: simp_thms)
qed

subsection \<open>The steady-state step\<close>







lemma lerp_factor_contracts:
  assumes "0 \<le> delta" "delta \<le> 4 / 3"
  shows "\<bar>1 - delta * 1.5\<bar> \<le> (1::real)"
  using assms by (simp add: abs_le_iff)














subsection \<open>The active count\<close>

lemma fl64_12000: "fl64 12000 = 12000"
  by (subst fl64_eval [where j = 39]) (simp_all add: roundHalfEven_def)

text \<open>Whole numbers below \<open>2^53\<close> are representable.\<close>

lemma fl64_of_int:
  assumes "0 < n" "n < 2 ^ 53"
  shows "fl64 (of_int n) = of_int n"
proof -
  let ?x = "of_int n :: real"
  have xpos: "0 < ?x" using assms by simp
  have "?x < 2 ^ 53"
    using assms(2) by (metis of_int_less_iff of_int_numeral of_int_power)
  then have "?x < 2 powr 53"
    by (simp add: powr_realpow [symmetric])
  then have "log 2 ?x < 53"
    using xpos by (simp add: log_less_iff)
  then have k: "\<lfloor>log 2 ?x\<rfloor> - 52 \<le> 0"
    by (simp add: floor_le_iff)
  define j where "j = nat (52 - \<lfloor>log 2 ?x\<rfloor>)"
  have e: "\<lfloor>log 2 ?x\<rfloor> - 52 = - int j"
    unfolding j_def using k by simp
  have p: "(2::real) powr (of_int (- int j)) = 1 / 2 ^ j"
    by (simp add: powr_minus powr_realpow divide_inverse)
  have q: "?x / (1 / 2 ^ j) = of_int (n * 2 ^ j)"
    by simp
  show ?thesis
    unfolding fl64_pos_unfold [OF xpos] e p q roundHalfEven_of_int by simp
qed

lemma fl64_of_int_nonneg:
  assumes "0 \<le> n" "n < 2 ^ 53"
  shows "fl64 (of_int n) = of_int n"
  using assms fl64_of_int [of n] by (cases "n = 0") (simp_all add: fl64_zero)

text \<open>
  Rounding a non-negative number below \<open>2^53 - 1\<close> moves its whole part up by at most one.
\<close>

lemma floor_fl64_bounds:
  assumes "0 \<le> x" "x < 2 ^ 53 - 1"
  shows "\<lfloor>x\<rfloor> \<le> \<lfloor>fl64 x\<rfloor>" and "\<lfloor>fl64 x\<rfloor> \<le> \<lfloor>x\<rfloor> + 1"
proof -
  have n0: "0 \<le> \<lfloor>x\<rfloor>" using assms(1) by simp
  have "of_int \<lfloor>x\<rfloor> \<le> x" by simp
  also have "x < of_int (2 ^ 53 - 1)" using assms(2) by simp
  finally have n1: "\<lfloor>x\<rfloor> < 2 ^ 53 - 1" by (simp only: of_int_less_iff)
  have a: "fl64 (of_int \<lfloor>x\<rfloor>) = of_int \<lfloor>x\<rfloor>"
    using n0 n1 by (intro fl64_of_int_nonneg) simp_all
  have b: "fl64 (of_int (\<lfloor>x\<rfloor> + 1)) = of_int (\<lfloor>x\<rfloor> + 1)"
    using n0 n1 by (intro fl64_of_int_nonneg) simp_all
  have "fl64 (of_int \<lfloor>x\<rfloor>) \<le> fl64 x"
    by (intro fl64_mono) simp
  then have lo: "of_int \<lfloor>x\<rfloor> \<le> fl64 x"
    by (simp only: a)
  have "x \<le> of_int (\<lfloor>x\<rfloor> + 1)" by linarith
  then have "fl64 x \<le> fl64 (of_int (\<lfloor>x\<rfloor> + 1))"
    by (rule fl64_mono)
  then have hi: "fl64 x \<le> of_int (\<lfloor>x\<rfloor> + 1)"
    by (simp only: b)
  show "\<lfloor>x\<rfloor> \<le> \<lfloor>fl64 x\<rfloor>"
    using lo by (simp add: le_floor_iff)
  show "\<lfloor>fl64 x\<rfloor> \<le> \<lfloor>x\<rfloor> + 1"
    using hi by (simp add: floor_le_iff)
qed

lemma stardust_count_bounds:
  assumes "0 \<le> density" "density \<le> 1"
  shows "0 \<le> \<lfloor>fl64 (STARDUST_COUNT * density)\<rfloor>" and "\<lfloor>fl64 (STARDUST_COUNT * density)\<rfloor> \<le> 12000"
proof -
  have "0 \<le> 12000 * density" using assms by simp
  then have "fl64 0 \<le> fl64 (12000 * density)" by (rule fl64_mono)
  then have lo: "0 \<le> fl64 (12000 * density)" by (simp only: fl64_zero)
  have "12000 * density \<le> 12000" using assms by simp
  then have "fl64 (12000 * density) \<le> fl64 12000" by (rule fl64_mono)
  then have hi: "fl64 (12000 * density) \<le> 12000" by (simp only: fl64_12000)
  show "0 \<le> \<lfloor>fl64 (STARDUST_COUNT * density)\<rfloor>"
    using lo by (simp add: STARDUST_COUNT_def)
  show "\<lfloor>fl64 (STARDUST_COUNT * density)\<rfloor> \<le> 12000"
    using hi unfolding STARDUST_COUNT_def by linarith
qed

text \<open>
  The density slider of \<^verbatim>\<open>App.tsx\<close> runs from 0.1 to 1.0 in steps of 0.05; the double
  nearest to \<open>k / 20\<close> is \<open>fl64 (k / 20)\<close>. At each of them the rounded product has the
  whole part \<open>600 * k\<close>.
\<close>

lemma slider_count_2: "\<lfloor>fl64 (12000 * fl64 (1 / 10))\<rfloor> = 1200"
proof -
  have a: "fl64 (1 / 10) = 3602879701896397 / 2 ^ 55"
    by (subst fl64_eval [where j = 56]) (simp_all add: roundHalfEven_def)
  have b: "fl64 (12000 * (3602879701896397 / 2 ^ 55)) = 1200"
    by (subst fl64_eval [where j = 42]) (simp_all add: roundHalfEven_def)
  show ?thesis
    unfolding a b by simp
qed

lemma slider_count_3: "\<lfloor>fl64 (12000 * fl64 (3 / 20))\<rfloor> = 1800"
proof -
  have a: "fl64 (3 / 20) = 5404319552844595 / 2 ^ 55"
    by (subst fl64_eval [where j = 55]) (simp_all add: roundHalfEven_def)
  have b: "fl64 (12000 * (5404319552844595 / 2 ^ 55)) = 1800"
    by (subst fl64_eval [where j = 42]) (simp_all add: roundHalfEven_def)
  show ?thesis
    unfolding a b by simp
qed

lemma slider_count_4: "\<lfloor>fl64 (12000 * fl64 (1 / 5))\<rfloor> = 2400"
proof -
  have a: "fl64 (1 / 5) = 3602879701896397 / 2 ^ 54"
    by (subst fl64_eval [where j = 55]) (simp_all add: roundHalfEven_def)
  have b: "fl64 (12000 * (3602879701896397 / 2 ^ 54)) = 2400"
    by (subst fl64_eval [where j = 41]) (simp_all add: roundHalfEven_def)
  show ?thesis
    unfolding a b by simp
qed

lemma slider_count_5: "\<lfloor>fl64 (12000 * fl64 (1 / 4))\<rfloor> = 3000"
proof -
  have a: "fl64 (1 / 4) = 1 / 4"
    by (subst fl64_eval [where j = 54]) (simp_all add: roundHalfEven_def)
  have b: "fl64 (12000 * (1 / 4)) = 3000"
    by (subst fl64_eval [where j = 41]) (simp_all add: roundHalfEven_def)
  show ?thesis
    unfolding a b by simp
qed

lemma slider_count_6: "\<lfloor>fl64 (12000 * fl64 (3 / 10))\<rfloor> = 3600"
proof -
  have a: "fl64 (3 / 10) = 5404319552844595 / 2 ^ 54"
    by (subst fl64_eval [where j = 54]) (simp_all add: roundHalfEven_def)
  have b: "fl64 (12000 * (5404319552844595 / 2 ^ 54)) = 3600"
    by (subst fl64_eval [where j = 41]) (simp_all add: roundHalfEven_def)
  show ?thesis
    unfolding a b by simp
qed

lemma slider_count_7: "\<lfloor>fl64 (12000 * fl64 (7 / 20))\<rfloor> = 4200"
proof -
  have a: "fl64 (7 / 20) = 3152519739159347 / 2 ^ 53"
    by (subst fl64_eval [where j = 54]) (simp_all add: roundHalfEven_def)
  have b: "fl64 (12000 * (3152519739159347 / 2 ^ 53)) = 4200"
    by (subst fl64_eval [where j = 40]) (simp_all add: roundHalfEven_def)
  show ?thesis
    unfolding a b by simp
qed

lemma slider_count_8: "\<lfloor>fl64 (12000 * fl64 (2 / 5))\<rfloor> = 4800"
proof -
  have a: "fl64 (2 / 5) = 3602879701896397 / 2 ^ 53"
    by (subst fl64_eval [where j = 54]) (simp_all add: roundHalfEven_def)
  have b: "fl64 (12000 * (3602879701896397 / 2 ^ 53)) = 4800"
    by (subst fl64_eval [where j = 40]) (simp_all add: roundHalfEven_def)
  show ?thesis
    unfolding a b by simp
qed

lemma slider_count_9: "\<lfloor>fl64 (12000 * fl64 (9 / 20))\<rfloor> = 5400"
proof -
  have a: "fl64 (9 / 20) = 8106479329266893 / 2 ^ 54"
    by (subst fl64_eval [where j = 54]) (simp_all add: roundHalfEven_def)
  have b: "fl64 (12000 * (8106479329266893 / 2 ^ 54)) = 5400"
    by (subst fl64_eval [where j = 40]) (simp_all add: roundHalfEven_def)
  show ?thesis
    unfolding a b by simp
qed

lemma slider_count_10: "\<lfloor>fl64 (12000 * fl64 (1 / 2))\<rfloor> = 6000"
proof -
  have a: "fl64 (1 / 2) = 1 / 2"
    by (subst fl64_eval [where j = 53]) (simp_all add: roundHalfEven_def)
  have b: "fl64 (12000 * (1 / 2)) = 6000"
    by (subst fl64_eval [where j = 40]) (simp_all add: roundHalfEven_def)
  show ?thesis
    unfolding a b by simp
qed

lemma slider_count_11: "\<lfloor>fl64 (12000 * fl64 (11 / 20))\<rfloor> = 6600"
proof -
  have a: "fl64 (11 / 20) = 2476979795053773 / 2 ^ 52"
    by (subst fl64_eval [where j = 53]) (simp_all add: roundHalfEven_def)
  have b: "fl64 (12000 * (2476979795053773 / 2 ^ 52)) = 7256776743321601 / 2 ^ 40"
    by (subst fl64_eval [where j = 40]) (simp_all add: roundHalfEven_def)
  show ?thesis
    proof -
    have "(6600::real) \<le> 7256776743321601 / 2 ^ 40" "(7256776743321601 / 2 ^ 40 :: real) < 6600 + 1"
      by simp_all
    then have "\<lfloor>7256776743321601 / 2 ^ 40 :: real\<rfloor> = 6600"
      by linarith
    then show ?thesis
      unfolding a b .
  qed
qed

lemma slider_count_12: "\<lfloor>fl64 (12000 * fl64 (3 / 5))\<rfloor> = 7200"
proof -
  have a: "fl64 (3 / 5) = 5404319552844595 / 2 ^ 53"
    by (subst fl64_eval [where j = 53]) (simp_all add: roundHalfEven_def)
  have b: "fl64 (12000 * (5404319552844595 / 2 ^ 53)) = 7200"
    by (subst fl64_eval [where j = 40]) (simp_all add: roundHalfEven_def)
  show ?thesis
    unfolding a b by simp
qed

lemma slider_count_13: "\<lfloor>fl64 (12000 * fl64 (13 / 20))\<rfloor> = 7800"
proof -
  have a: "fl64 (13 / 20) = 5854679515581645 / 2 ^ 53"
    by (subst fl64_eval [where j = 53]) (simp_all add: roundHalfEven_def)
  have b: "fl64 (12000 * (5854679515581645 / 2 ^ 53)) = 7800"
    by (subst fl64_eval [where j = 40]) (simp_all add: roundHalfEven_def)
  show ?thesis
    unfolding a b by simp
qed

lemma slider_count_14: "\<lfloor>fl64 (12000 * fl64 (7 / 10))\<rfloor> = 8400"
proof -
  have a: "fl64 (7 / 10) = 3152519739159347 / 2 ^ 52"
    by (subst fl64_eval [where j = 53]) (simp_all add: roundHalfEven_def)
  have b: "fl64 (12000 * (3152519739159347 / 2 ^ 52)) = 8400"
    by (subst fl64_eval [where j = 39]) (simp_all add: roundHalfEven_def)
  show ?thesis
    unfolding a b by simp
qed

lemma slider_count_15: "\<lfloor>fl64 (12000 * fl64 (3 / 4))\<rfloor> = 9000"
proof -
  have a: "fl64 (3 / 4) = 3 / 4"
    by (subst fl64_eval [where j = 53]) (simp_all add: roundHalfEven_def)
  have b: "fl64 (12000 * (3 / 4)) = 9000"
    by (subst fl64_eval [where j = 39]) (simp_all add: roundHalfEven_def)
  show ?thesis
    unfolding a b by simp
qed

lemma slider_count_16: "\<lfloor>fl64 (12000 * fl64 (4 / 5))\<rfloor> = 9600"
proof -
  have a: "fl64 (4 / 5) = 3602879701896397 / 2 ^ 52"
    by (subst fl64_eval [where j = 53]) (simp_all add: roundHalfEven_def)
  have b: "fl64 (12000 * (3602879701896397 / 2 ^ 52)) = 9600"
    by (subst fl64_eval [where j = 39]) (simp_all add: roundHalfEven_def)
  show ?thesis
    unfolding a b by simp
qed

lemma slider_count_17: "\<lfloor>fl64 (12000 * fl64 (17 / 20))\<rfloor> = 10200"
proof -
  have a: "fl64 (17 / 20) = 7656119366529843 / 2 ^ 53"
    by (subst fl64_eval [where j = 53]) (simp_all add: roundHalfEven_def)
  have b: "fl64 (12000 * (7656119366529843 / 2 ^ 53)) = 10200"
    by (subst fl64_eval [where j = 39]) (simp_all add: roundHalfEven_def)
  show ?thesis
    unfolding a b by simp
qed

lemma slider_count_18: "\<lfloor>fl64 (12000 * fl64 (9 / 10))\<rfloor> = 10800"
proof -
  have a: "fl64 (9 / 10) = 8106479329266893 / 2 ^ 53"
    by (subst fl64_eval [where j = 53]) (simp_all add: roundHalfEven_def)
  have b: "fl64 (12000 * (8106479329266893 / 2 ^ 53)) = 10800"
    by (subst fl64_eval [where j = 39]) (simp_all add: roundHalfEven_def)
  show ?thesis
    unfolding a b by simp
qed

lemma slider_count_19: "\<lfloor>fl64 (12000 * fl64 (19 / 20))\<rfloor> = 11400"
proof -
  have a: "fl64 (19 / 20) = 4278419646001971 / 2 ^ 52"
    by (subst fl64_eval [where j = 53]) (simp_all add: roundHalfEven_def)
  have b: "fl64 (12000 * (4278419646001971 / 2 ^ 52)) = 11400"
    by (subst fl64_eval [where j = 39]) (simp_all add: roundHalfEven_def)
  show ?thesis
    unfolding a b by simp
qed

lemma slider_count_20: "\<lfloor>fl64 (12000 * fl64 (1))\<rfloor> = 12000"
proof -
  have a: "fl64 (1) = 1"
    by (subst fl64_eval [where j = 52]) (simp_all add: roundHalfEven_def)
  have b: "fl64 (12000 * (1)) = 12000"
    by (subst fl64_eval [where j = 39]) (simp_all add: roundHalfEven_def)
  show ?thesis
    unfolding a b by simp
qed

lemma slider_counts:
  assumes "k \<in> {2..20::nat}"
  shows "\<lfloor>fl64 (STARDUST_COUNT * fl64 (real k / 20))\<rfloor> = 600 * int k"
proof -
  from assms have "2 \<le> k \<and> k \<le> 20" by simp
  then have "k = 2 \<or> k = 3 \<or> k = 4 \<or> k = 5 \<or> k = 6 \<or> k = 7 \<or> k = 8 \<or> k = 9 \<or> k = 10 \<or> k = 11 \<or> k = 12 \<or> k = 13 \<or> k = 14 \<or> k = 15 \<or> k = 16 \<or> k = 17 \<or> k = 18 \<or> k = 19 \<or> k = 20"
    by presburger
  then consider "k = 2" | "k = 3" | "k = 4" | "k = 5" | "k = 6" | "k = 7" | "k = 8" | "k = 9" | "k = 10" | "k = 11" | "k = 12" | "k = 13" | "k = 14" | "k = 15" | "k = 16" | "k = 17" | "k = 18" | "k = 19" | "k = 20"
    by blast
  then show ?thesis
  proof cases
    case 1
    then show ?thesis using slider_count_2 by (simp add: STARDUST_COUNT_def)
  next
    case 2
    then show ?thesis using slider_count_3 by (simp add: STARDUST_COUNT_def)
  next
    case 3
    then show ?thesis using slider_count_4 by (simp add: STARDUST_COUNT_def)
  next
    case 4
    then show ?thesis using slider_count_5 by (simp add: STARDUST_COUNT_def)
  next
    case 5
    then show ?thesis using slider_count_6 by (simp add: STARDUST_COUNT_def)
  next
    case 6
    then show ?thesis using slider_count_7 by (simp add: STARDUST_COUNT_def)
  next
    case 7
    then show ?thesis using slider_count_8 by (simp add: STARDUST_COUNT_def)
  next
    case 8
    then show ?thesis using slider_count_9 by (simp add: STARDUST_COUNT_def)
  next
    case 9
    then show ?thesis using slider_count_10 by (simp add: STARDUST_COUNT_def)
  next
    case 10
    then show ?thesis using slider_count_11 by (simp add: STARDUST_COUNT_def)
  next
    case 11
    then show ?thesis using slider_count_12 by (simp add: STARDUST_COUNT_def)
  next
    case 12
    then show ?thesis using slider_count_13 by (simp add: STARDUST_COUNT_def)
  next
    case 13
    then show ?thesis using slider_count_14 by (simp add: STARDUST_COUNT_def)
  next
    case 14
    then show ?thesis using slider_count_15 by (simp add: STARDUST_COUNT_def)
  next
    case 15
    then show ?thesis using slider_count_16 by (simp add: STARDUST_COUNT_def)
  next
    case 16
    then show ?thesis using slider_count_17 by (simp add: STARDUST_COUNT_def)
  next
    case 17
    then show ?thesis using slider_count_18 by (simp add: STARDUST_COUNT_def)
  next
    case 18
    then show ?thesis using slider_count_19 by (simp add: STARDUST_COUNT_def)
  next
    case 19
    then show ?thesis using slider_count_20 by (simp add: STARDUST_COUNT_def)
  qed
qed

text \<open>
  Claim C8, as the code has it. The count passed to the draw range of the stardust points
  is the whole part of the double-precision product of 12000 and the density,
  \<open>\<lfloor>fl64 (12000 * density)\<rfloor>\<close>, which is 6000 at density 1/2. For a density in \<open>[0, 1]\<close> and
  the pool of 12000 points the count lies between 0 and 12000, it is \<open>\<lfloor>12000 * density\<rfloor>\<close>
  or one more, it is the number of points below the active count, and these are the points
  the frame recomputes. At the double nearest to each slider value \<open>k / 20\<close>, for \<open>k\<close> from 2
  to 20, the count is \<open>\<lfloor>12000 * (k / 20)\<rfloor> = 600 * k\<close>.
\<close>

theorem active_stardust_count:
  "snd (stardustUpdate m time delta density d) = \<lfloor>fl64 (12000 * density)\<rfloor>
   \<and> snd (stardustUpdate m time delta (1 / 2) d) = 6000
   \<and> (0 \<le> density \<and> density \<le> 1 \<and> length (positions d) = 12000 \<longrightarrow>
        0 \<le> snd (stardustUpdate m time delta density d)
        \<and> snd (stardustUpdate m time delta density d) \<le> 12000
        \<and> \<lfloor>12000 * density\<rfloor> \<le> snd (stardustUpdate m time delta density d)
        \<and> snd (stardustUpdate m time delta density d) \<le> \<lfloor>12000 * density\<rfloor> + 1
        \<and> card {i. i < length (positions d) \<and> int i < snd (stardustUpdate m time delta density d)}
            = nat \<lfloor>fl64 (12000 * density)\<rfloor>
        \<and> (\<forall>i < length (positions d).
              positions (fst (stardustUpdate m time delta density d)) ! i =
                (if int i < \<lfloor>fl64 (12000 * density)\<rfloor>
                 then stardustElement (time < INTRO_DURATION) m time (delta * 1.5)
                        (targetTree d ! i) (targetScatter d ! i) (positions d ! i)
                 else positions d ! i)))
   \<and> (\<forall>k \<in> {2..20::nat}.
        snd (stardustUpdate m time delta (fl64 (real k / 20)) d) = \<lfloor>12000 * (real k / 20)\<rfloor>
        \<and> \<lfloor>12000 * (real k / 20)\<rfloor> = 600 * int k)"
proof (intro conjI impI ballI)
  show cnt: "snd (stardustUpdate m time delta density d) = \<lfloor>fl64 (12000 * density)\<rfloor>"
    by (simp add: stardustUpdate_count STARDUST_COUNT_def)
  show "snd (stardustUpdate m time delta (1 / 2) d) = 6000"
    by (simp only: stardustUpdate_count stardust_half_density)
next
  fix k :: nat
  assume k: "k \<in> {2..20}"
  have "12000 * (real k / 20) = of_int (600 * int k)"
    by simp
  then show fl: "\<lfloor>12000 * (real k / 20)\<rfloor> = 600 * int k"
    by (simp only: floor_of_int)
  show "snd (stardustUpdate m time delta (fl64 (real k / 20)) d) = \<lfloor>12000 * (real k / 20)\<rfloor>"
    by (simp only: stardustUpdate_count slider_counts [OF k] fl)
next
  assume h: "0 \<le> density \<and> density \<le> 1 \<and> length (positions d) = 12000"
  have cnt: "snd (stardustUpdate m time delta density d) = \<lfloor>fl64 (12000 * density)\<rfloor>"
    by (simp add: stardustUpdate_count STARDUST_COUNT_def)
  have lo: "0 \<le> \<lfloor>fl64 (12000 * density)\<rfloor>" and hi: "\<lfloor>fl64 (12000 * density)\<rfloor> \<le> 12000"
    using stardust_count_bounds [of density] h by (simp_all add: STARDUST_COUNT_def)
  show "0 \<le> snd (stardustUpdate m time delta density d)"
    and "snd (stardustUpdate m time delta density d) \<le> 12000"
    using lo hi by (simp_all only: cnt)
  have x0: "0 \<le> 12000 * density" using h by simp
  have "12000 * density \<le> 12000" using h by simp
  then have x1: "12000 * density < 2 ^ 53 - 1" by simp
  show "\<lfloor>12000 * density\<rfloor> \<le> snd (stardustUpdate m time delta density d)"
    and "snd (stardustUpdate m time delta density d) \<le> \<lfloor>12000 * density\<rfloor> + 1"
    using floor_fl64_bounds [OF x0 x1] by (simp_all only: cnt)
  from hi have hin: "nat \<lfloor>fl64 (12000 * density)\<rfloor> \<le> 12000" by linarith
  have "\<And>i. (i < length (positions d) \<and> int i < \<lfloor>fl64 (12000 * density)\<rfloor>)
               = (i < nat \<lfloor>fl64 (12000 * density)\<rfloor>)"
    using h hin by linarith
  then have "{i. i < length (positions d) \<and> int i < \<lfloor>fl64 (12000 * density)\<rfloor>}
          = {..<nat \<lfloor>fl64 (12000 * density)\<rfloor>}"
    by (simp only: lessThan_def)
  then show "card {i. i < length (positions d) \<and> int i < snd (stardustUpdate m time delta density d)}
            = nat \<lfloor>fl64 (12000 * density)\<rfloor>"
    by (simp only: cnt card_lessThan)
  show "\<forall>i < length (positions d).
              positions (fst (stardustUpdate m time delta density d)) ! i =
                (if int i < \<lfloor>fl64 (12000 * density)\<rfloor>
                 then stardustElement (time < INTRO_DURATION) m time (delta * 1.5)
                        (targetTree d ! i) (targetScatter d ! i) (positions d ! i)
                 else positions d ! i)"
    using stardustUpdate_nth [of _ d m time delta density]
    by (simp add: STARDUST_COUNT_def)
qed

text \<open>
  The double nearest to 0.3 is \<open>5404319552844595 / 2^54\<close>, a little below 0.3. At this
  density the exact product is below 3600 and its whole part is 3599, while the rounded
  product is 3600: the frame draws 3600 points.
\<close>

theorem active_stardust_count_counterexample:
  "fl64 (3 / 10) = 5404319552844595 / 2 ^ 54
   \<and> (0::real) \<le> 5404319552844595 / 2 ^ 54 \<and> (5404319552844595 / 2 ^ 54 :: real) \<le> 1
   \<and> snd (stardustUpdate SCATTER 5 (1 / 60) (5404319552844595 / 2 ^ 54) exampleStardust) = 3600
   \<and> \<lfloor>12000 * (5404319552844595 / 2 ^ 54 :: real)\<rfloor> = 3599"
proof -
  have a: "fl64 (3 / 10) = 5404319552844595 / 2 ^ 54"
    by (subst fl64_eval [where j = 54]) (simp_all add: roundHalfEven_def)
  have r: "(0::real) \<le> 5404319552844595 / 2 ^ 54 \<and> (5404319552844595 / 2 ^ 54 :: real) \<le> 1"
    by simp
  have b: "fl64 (12000 * (5404319552844595 / 2 ^ 54)) = 3600"
    by (subst fl64_eval [where j = 41]) (simp_all add: roundHalfEven_def)
  have c: "snd (stardustUpdate SCATTER 5 (1 / 60) (5404319552844595 / 2 ^ 54) exampleStardust) = 3600"
    unfolding stardustUpdate_count STARDUST_COUNT_def b by simp
  have "(3599::real) \<le> 12000 * (5404319552844595 / 2 ^ 54)"
    "12000 * (5404319552844595 / 2 ^ 54 :: real) < 3599 + 1"
    by simp_all
  then have e: "\<lfloor>12000 * (5404319552844595 / 2 ^ 54 :: real)\<rfloor> = 3599"
    by linarith
  show ?thesis
    using a r c e by - (elim conjE, intro conjI, assumption+)
qed

theorem active_stardust_count_witness:
  "(0::real) \<le> 1 / 2 \<and> (1 / 2 :: real) \<le> 1 \<and> length (positions exampleStardust) = 12000
   \<and> snd (stardustUpdate SCATTER 5 (1 / 60) (1 / 2) exampleStardust) = 6000
   \<and> card {i. i < length (positions exampleStardust)
               \<and> int i < snd (stardustUpdate SCATTER 5 (1 / 60) (1 / 2) exampleStardust)}
        = nat \<lfloor>fl64 (12000 * (1 / 2))\<rfloor>
   \<and> nat \<lfloor>fl64 (12000 * (1 / 2))\<rfloor> = 6000
   \<and> (6::nat) \<in> {2..20}
   \<and> snd (stardustUpdate SCATTER 5 (1 / 60) (fl64 (real 6 / 20)) exampleStardust)
        = \<lfloor>12000 * (real 6 / 20)\<rfloor>
   \<and> \<lfloor>12000 * (real 6 / 20)\<rfloor> = 600 * int 6"
proof -
  note t = active_stardust_count [where m = SCATTER and time = 5 and delta = "1 / 60"
      and density = "1 / 2" and d = exampleStardust]
  have h: "(0::real) \<le> 1 / 2 \<and> (1 / 2 :: real) \<le> 1 \<and> length (positions exampleStardust) = 12000"
    by (simp add: exampleStardust_nth)
  have k: "(6::nat) \<in> {2..20}"
    by simp
  note c1 = t [THEN conjunct2, THEN conjunct1]
  note c2 = t [THEN conjunct2, THEN conjunct2, THEN conjunct1, rule_format, OF h,
      THEN conjunct2, THEN conjunct2, THEN conjunct2, THEN conjunct2, THEN conjunct1]
  have c3: "nat \<lfloor>fl64 (12000 * (1 / 2))\<rfloor> = 6000"
    using stardust_half_density by (simp add: STARDUST_COUNT_def)
  note c4 = t [THEN conjunct2, THEN conjunct2, THEN conjunct2, rule_format, OF k]
  show ?thesis
    using h c1 c2 c3 k c4 by - (elim conjE, intro conjI, assumption+)
qed

end
